theory Spec2Isabelle
  imports Main "HOL-Library.Sublist"
begin

section \<open>Strings\<close>

text \<open>
  A JavaScript string is modelled by the UTF-8 encoding of its code points, a
  \<^typ>\<open>string\<close> (a list of 8-bit characters); every string without an unpaired
  surrogate has exactly one such encoding, and a substring of code points is a sublist
  of bytes. The strings the script itself builds are ASCII, except for one em dash in a
  sample title, the theme icons and the bullet of the card template, which are written
  as their UTF-8 bytes.

  The built-in methods that the script calls on text from outside (the search text) work
  on code points, as ECMAScript defines them. \<open>String.prototype.toLowerCase\<close> is the
  Unicode Default Case Conversion \<open>toLowercase\<close>, with the data of the Unicode
  Character Database, version 15.0: the simple lowercase mappings of UnicodeData.txt,
  the two mappings of SpecialCasing.txt that do not depend on the language (U+0130, and
  U+03A3 under \<open>Final_Sigma\<close>), and the properties Cased and Case_Ignorable of
  DerivedCoreProperties.txt. \<open>String.prototype.trim\<close> strips the code points of
  ECMAScript's WhiteSpace and LineTerminator from both ends.
\<close>

subsection \<open>Code points\<close>

text \<open>
  \<open>StringToCodePoints\<close> reads the code points off the bytes: one byte below 0x80, or a
  lead byte with one, two or three continuation bytes, where the shortest encoding is
  the only one accepted and surrogates and values above U+10FFFF are not. A byte that
  starts no such sequence (no string has one) reads as U+FFFD.
\<close>

definition continuation :: "char \<Rightarrow> bool" where
  "continuation c = (0x80 \<le> (of_char c :: nat) \<and> (of_char c :: nat) < 0xC0)"

definition payload :: "char \<Rightarrow> nat" where
  "payload c = of_char c - 0x80"

fun StringToCodePoints :: "string \<Rightarrow> nat list" where
  "StringToCodePoints [] = []"
| "StringToCodePoints (c # s) =
     (let b = of_char c in
      if b < 0x80 then b # StringToCodePoints s
      else if 0xC2 \<le> b \<and> b < 0xE0 then
        (case s of
           c1 # s1 \<Rightarrow>
             if continuation c1
             then ((b - 0xC0) * 0x40 + payload c1) # StringToCodePoints s1
             else 0xFFFD # StringToCodePoints s
         | _ \<Rightarrow> 0xFFFD # StringToCodePoints s)
      else if 0xE0 \<le> b \<and> b < 0xF0 then
        (case s of
           c1 # c2 # s2 \<Rightarrow>
             let cp = (b - 0xE0) * 0x1000 + payload c1 * 0x40 + payload c2 in
             if continuation c1 \<and> continuation c2 \<and> 0x800 \<le> cp \<and>
                \<not> (0xD800 \<le> cp \<and> cp \<le> 0xDFFF)
             then cp # StringToCodePoints s2
             else 0xFFFD # StringToCodePoints s
         | _ \<Rightarrow> 0xFFFD # StringToCodePoints s)
      else if 0xF0 \<le> b \<and> b < 0xF5 then
        (case s of
           c1 # c2 # c3 # s3 \<Rightarrow>
             let cp = (b - 0xF0) * 0x40000 + payload c1 * 0x1000 + payload c2 * 0x40 + payload c3 in
             if continuation c1 \<and> continuation c2 \<and> continuation c3 \<and> 0x10000 \<le> cp \<and>
                cp \<le> 0x10FFFF
             then cp # StringToCodePoints s3
             else 0xFFFD # StringToCodePoints s
         | _ \<Rightarrow> 0xFFFD # StringToCodePoints s)
      else 0xFFFD # StringToCodePoints s)"

text \<open>\<open>CodePointsToString\<close> writes the code points back, each in its UTF-8 encoding.\<close>

definition utf8 :: "nat \<Rightarrow> string" where
  "utf8 cp =
     (if cp < 0x80 then [char_of cp]
      else if cp < 0x800 then [char_of (0xC0 + cp div 0x40), char_of (0x80 + cp mod 0x40)]
      else if cp < 0x10000 then
        [char_of (0xE0 + cp div 0x1000), char_of (0x80 + cp div 0x40 mod 0x40),
         char_of (0x80 + cp mod 0x40)]
      else
        [char_of (0xF0 + cp div 0x40000), char_of (0x80 + cp div 0x1000 mod 0x40),
         char_of (0x80 + cp div 0x40 mod 0x40), char_of (0x80 + cp mod 0x40)])"

definition CodePointsToString :: "nat list \<Rightarrow> string" where
  "CodePointsToString cps = concat (map utf8 cps)"

subsection \<open>Lower case\<close>

text \<open>
  The simple lowercase mappings, in ranges \<open>(lo, hi, stride, tlo)\<close>, in increasing order:
  the code points \<open>lo\<close>, \<open>lo + stride\<close>, ... up to \<open>hi\<close> have a mapping, and \<open>c\<close> among
  them maps to \<open>tlo + (c - lo)\<close>. Every other code point maps to itself.
\<close>

definition Simple_Lowercase_Mapping_ranges :: "(nat \<times> nat \<times> nat \<times> nat) list" where
  "Simple_Lowercase_Mapping_ranges =
    [(0x41, 0x5A, 1, 0x61), (0xC0, 0xD6, 1, 0xE0), (0xD8, 0xDE, 1, 0xF8), (0x100, 0x12E, 2, 0x101),
     (0x130, 0x130, 1, 0x69), (0x132, 0x136, 2, 0x133), (0x139, 0x147, 2, 0x13A), (0x14A, 0x176, 2, 0x14B),
     (0x178, 0x178, 1, 0xFF), (0x179, 0x17D, 2, 0x17A), (0x181, 0x181, 1, 0x253), (0x182, 0x184, 2, 0x183),
     (0x186, 0x186, 1, 0x254), (0x187, 0x187, 1, 0x188), (0x189, 0x18A, 1, 0x256), (0x18B, 0x18B, 1, 0x18C),
     (0x18E, 0x18E, 1, 0x1DD), (0x18F, 0x18F, 1, 0x259), (0x190, 0x190, 1, 0x25B), (0x191, 0x191, 1, 0x192),
     (0x193, 0x193, 1, 0x260), (0x194, 0x194, 1, 0x263), (0x196, 0x196, 1, 0x269), (0x197, 0x197, 1, 0x268),
     (0x198, 0x198, 1, 0x199), (0x19C, 0x19C, 1, 0x26F), (0x19D, 0x19D, 1, 0x272), (0x19F, 0x19F, 1, 0x275),
     (0x1A0, 0x1A4, 2, 0x1A1), (0x1A6, 0x1A6, 1, 0x280), (0x1A7, 0x1A7, 1, 0x1A8), (0x1A9, 0x1A9, 1, 0x283),
     (0x1AC, 0x1AC, 1, 0x1AD), (0x1AE, 0x1AE, 1, 0x288), (0x1AF, 0x1AF, 1, 0x1B0), (0x1B1, 0x1B2, 1, 0x28A),
     (0x1B3, 0x1B5, 2, 0x1B4), (0x1B7, 0x1B7, 1, 0x292), (0x1B8, 0x1B8, 1, 0x1B9), (0x1BC, 0x1BC, 1, 0x1BD),
     (0x1C4, 0x1C4, 1, 0x1C6), (0x1C5, 0x1C5, 1, 0x1C6), (0x1C7, 0x1C7, 1, 0x1C9), (0x1C8, 0x1C8, 1, 0x1C9),
     (0x1CA, 0x1CA, 1, 0x1CC), (0x1CB, 0x1DB, 2, 0x1CC), (0x1DE, 0x1EE, 2, 0x1DF), (0x1F1, 0x1F1, 1, 0x1F3),
     (0x1F2, 0x1F4, 2, 0x1F3), (0x1F6, 0x1F6, 1, 0x195), (0x1F7, 0x1F7, 1, 0x1BF), (0x1F8, 0x21E, 2, 0x1F9),
     (0x220, 0x220, 1, 0x19E), (0x222, 0x232, 2, 0x223), (0x23A, 0x23A, 1, 0x2C65), (0x23B, 0x23B, 1, 0x23C),
     (0x23D, 0x23D, 1, 0x19A), (0x23E, 0x23E, 1, 0x2C66), (0x241, 0x241, 1, 0x242), (0x243, 0x243, 1, 0x180),
     (0x244, 0x244, 1, 0x289), (0x245, 0x245, 1, 0x28C), (0x246, 0x24E, 2, 0x247), (0x370, 0x372, 2, 0x371),
     (0x376, 0x376, 1, 0x377), (0x37F, 0x37F, 1, 0x3F3), (0x386, 0x386, 1, 0x3AC), (0x388, 0x38A, 1, 0x3AD),
     (0x38C, 0x38C, 1, 0x3CC), (0x38E, 0x38F, 1, 0x3CD), (0x391, 0x3A1, 1, 0x3B1), (0x3A3, 0x3AB, 1, 0x3C3),
     (0x3CF, 0x3CF, 1, 0x3D7), (0x3D8, 0x3EE, 2, 0x3D9), (0x3F4, 0x3F4, 1, 0x3B8), (0x3F7, 0x3F7, 1, 0x3F8),
     (0x3F9, 0x3F9, 1, 0x3F2), (0x3FA, 0x3FA, 1, 0x3FB), (0x3FD, 0x3FF, 1, 0x37B), (0x400, 0x40F, 1, 0x450),
     (0x410, 0x42F, 1, 0x430), (0x460, 0x480, 2, 0x461), (0x48A, 0x4BE, 2, 0x48B), (0x4C0, 0x4C0, 1, 0x4CF),
     (0x4C1, 0x4CD, 2, 0x4C2), (0x4D0, 0x52E, 2, 0x4D1), (0x531, 0x556, 1, 0x561), (0x10A0, 0x10C5, 1, 0x2D00),
     (0x10C7, 0x10C7, 1, 0x2D27), (0x10CD, 0x10CD, 1, 0x2D2D), (0x13A0, 0x13EF, 1, 0xAB70), (0x13F0, 0x13F5, 1, 0x13F8),
     (0x1C90, 0x1CBA, 1, 0x10D0), (0x1CBD, 0x1CBF, 1, 0x10FD), (0x1E00, 0x1E94, 2, 0x1E01), (0x1E9E, 0x1E9E, 1, 0xDF),
     (0x1EA0, 0x1EFE, 2, 0x1EA1), (0x1F08, 0x1F0F, 1, 0x1F00), (0x1F18, 0x1F1D, 1, 0x1F10), (0x1F28, 0x1F2F, 1, 0x1F20),
     (0x1F38, 0x1F3F, 1, 0x1F30), (0x1F48, 0x1F4D, 1, 0x1F40), (0x1F59, 0x1F5F, 2, 0x1F51), (0x1F68, 0x1F6F, 1, 0x1F60),
     (0x1F88, 0x1F8F, 1, 0x1F80), (0x1F98, 0x1F9F, 1, 0x1F90), (0x1FA8, 0x1FAF, 1, 0x1FA0), (0x1FB8, 0x1FB9, 1, 0x1FB0),
     (0x1FBA, 0x1FBB, 1, 0x1F70), (0x1FBC, 0x1FBC, 1, 0x1FB3), (0x1FC8, 0x1FCB, 1, 0x1F72), (0x1FCC, 0x1FCC, 1, 0x1FC3),
     (0x1FD8, 0x1FD9, 1, 0x1FD0), (0x1FDA, 0x1FDB, 1, 0x1F76), (0x1FE8, 0x1FE9, 1, 0x1FE0), (0x1FEA, 0x1FEB, 1, 0x1F7A),
     (0x1FEC, 0x1FEC, 1, 0x1FE5), (0x1FF8, 0x1FF9, 1, 0x1F78), (0x1FFA, 0x1FFB, 1, 0x1F7C), (0x1FFC, 0x1FFC, 1, 0x1FF3),
     (0x2126, 0x2126, 1, 0x3C9), (0x212A, 0x212A, 1, 0x6B), (0x212B, 0x212B, 1, 0xE5), (0x2132, 0x2132, 1, 0x214E),
     (0x2160, 0x216F, 1, 0x2170), (0x2183, 0x2183, 1, 0x2184), (0x24B6, 0x24CF, 1, 0x24D0), (0x2C00, 0x2C2F, 1, 0x2C30),
     (0x2C60, 0x2C60, 1, 0x2C61), (0x2C62, 0x2C62, 1, 0x26B), (0x2C63, 0x2C63, 1, 0x1D7D), (0x2C64, 0x2C64, 1, 0x27D),
     (0x2C67, 0x2C6B, 2, 0x2C68), (0x2C6D, 0x2C6D, 1, 0x251), (0x2C6E, 0x2C6E, 1, 0x271), (0x2C6F, 0x2C6F, 1, 0x250),
     (0x2C70, 0x2C70, 1, 0x252), (0x2C72, 0x2C72, 1, 0x2C73), (0x2C75, 0x2C75, 1, 0x2C76), (0x2C7E, 0x2C7F, 1, 0x23F),
     (0x2C80, 0x2CE2, 2, 0x2C81), (0x2CEB, 0x2CED, 2, 0x2CEC), (0x2CF2, 0x2CF2, 1, 0x2CF3), (0xA640, 0xA66C, 2, 0xA641),
     (0xA680, 0xA69A, 2, 0xA681), (0xA722, 0xA72E, 2, 0xA723), (0xA732, 0xA76E, 2, 0xA733), (0xA779, 0xA77B, 2, 0xA77A),
     (0xA77D, 0xA77D, 1, 0x1D79), (0xA77E, 0xA786, 2, 0xA77F), (0xA78B, 0xA78B, 1, 0xA78C), (0xA78D, 0xA78D, 1, 0x265),
     (0xA790, 0xA792, 2, 0xA791), (0xA796, 0xA7A8, 2, 0xA797), (0xA7AA, 0xA7AA, 1, 0x266), (0xA7AB, 0xA7AB, 1, 0x25C),
     (0xA7AC, 0xA7AC, 1, 0x261), (0xA7AD, 0xA7AD, 1, 0x26C), (0xA7AE, 0xA7AE, 1, 0x26A), (0xA7B0, 0xA7B0, 1, 0x29E),
     (0xA7B1, 0xA7B1, 1, 0x287), (0xA7B2, 0xA7B2, 1, 0x29D), (0xA7B3, 0xA7B3, 1, 0xAB53), (0xA7B4, 0xA7C2, 2, 0xA7B5),
     (0xA7C4, 0xA7C4, 1, 0xA794), (0xA7C5, 0xA7C5, 1, 0x282), (0xA7C6, 0xA7C6, 1, 0x1D8E), (0xA7C7, 0xA7C9, 2, 0xA7C8),
     (0xA7D0, 0xA7D0, 1, 0xA7D1), (0xA7D6, 0xA7D8, 2, 0xA7D7), (0xA7F5, 0xA7F5, 1, 0xA7F6), (0xFF21, 0xFF3A, 1, 0xFF41),
     (0x10400, 0x10427, 1, 0x10428), (0x104B0, 0x104D3, 1, 0x104D8), (0x10570, 0x1057A, 1, 0x10597), (0x1057C, 0x1058A, 1, 0x105A3),
     (0x1058C, 0x10592, 1, 0x105B3), (0x10594, 0x10595, 1, 0x105BB), (0x10C80, 0x10CB2, 1, 0x10CC0), (0x118A0, 0x118BF, 1, 0x118C0),
     (0x16E40, 0x16E5F, 1, 0x16E60), (0x1E900, 0x1E921, 1, 0x1E922)]"

fun Simple_Lowercase_Mapping_in :: "(nat \<times> nat \<times> nat \<times> nat) list \<Rightarrow> nat \<Rightarrow> nat" where
  "Simple_Lowercase_Mapping_in [] c = c"
| "Simple_Lowercase_Mapping_in ((lo, hi, stride, tlo) # rs) c =
     (if c < lo then c
      else if c \<le> hi \<and> (c - lo) mod stride = 0 then tlo + (c - lo)
      else Simple_Lowercase_Mapping_in rs c)"

definition Simple_Lowercase_Mapping :: "nat \<Rightarrow> nat" where
  "Simple_Lowercase_Mapping c = Simple_Lowercase_Mapping_in Simple_Lowercase_Mapping_ranges c"

text \<open>The code points with the property Cased, and those with Case_Ignorable, in intervals.\<close>

definition Cased_ranges :: "(nat \<times> nat) list" where
  "Cased_ranges =
    [(0x41, 0x5A), (0x61, 0x7A), (0xAA, 0xAA), (0xB5, 0xB5), (0xBA, 0xBA), (0xC0, 0xD6),
     (0xD8, 0xF6), (0xF8, 0x1BA), (0x1BC, 0x1BF), (0x1C4, 0x293), (0x295, 0x2B8), (0x2C0, 0x2C1),
     (0x2E0, 0x2E4), (0x345, 0x345), (0x370, 0x373), (0x376, 0x377), (0x37A, 0x37D), (0x37F, 0x37F),
     (0x386, 0x386), (0x388, 0x38A), (0x38C, 0x38C), (0x38E, 0x3A1), (0x3A3, 0x3F5), (0x3F7, 0x481),
     (0x48A, 0x52F), (0x531, 0x556), (0x560, 0x588), (0x10A0, 0x10C5), (0x10C7, 0x10C7), (0x10CD, 0x10CD),
     (0x10D0, 0x10FA), (0x10FC, 0x10FF), (0x13A0, 0x13F5), (0x13F8, 0x13FD), (0x1C80, 0x1C88), (0x1C90, 0x1CBA),
     (0x1CBD, 0x1CBF), (0x1D00, 0x1DBF), (0x1E00, 0x1F15), (0x1F18, 0x1F1D), (0x1F20, 0x1F45), (0x1F48, 0x1F4D),
     (0x1F50, 0x1F57), (0x1F59, 0x1F59), (0x1F5B, 0x1F5B), (0x1F5D, 0x1F5D), (0x1F5F, 0x1F7D), (0x1F80, 0x1FB4),
     (0x1FB6, 0x1FBC), (0x1FBE, 0x1FBE), (0x1FC2, 0x1FC4), (0x1FC6, 0x1FCC), (0x1FD0, 0x1FD3), (0x1FD6, 0x1FDB),
     (0x1FE0, 0x1FEC), (0x1FF2, 0x1FF4), (0x1FF6, 0x1FFC), (0x2071, 0x2071), (0x207F, 0x207F), (0x2090, 0x209C),
     (0x2102, 0x2102), (0x2107, 0x2107), (0x210A, 0x2113), (0x2115, 0x2115), (0x2119, 0x211D), (0x2124, 0x2124),
     (0x2126, 0x2126), (0x2128, 0x2128), (0x212A, 0x212D), (0x212F, 0x2134), (0x2139, 0x2139), (0x213C, 0x213F),
     (0x2145, 0x2149), (0x214E, 0x214E), (0x2160, 0x217F), (0x2183, 0x2184), (0x24B6, 0x24E9), (0x2C00, 0x2CE4),
     (0x2CEB, 0x2CEE), (0x2CF2, 0x2CF3), (0x2D00, 0x2D25), (0x2D27, 0x2D27), (0x2D2D, 0x2D2D), (0xA640, 0xA66D),
     (0xA680, 0xA69D), (0xA722, 0xA787), (0xA78B, 0xA78E), (0xA790, 0xA7CA), (0xA7D0, 0xA7D1), (0xA7D3, 0xA7D3),
     (0xA7D5, 0xA7D9), (0xA7F2, 0xA7F6), (0xA7F8, 0xA7FA), (0xAB30, 0xAB5A), (0xAB5C, 0xAB69), (0xAB70, 0xABBF),
     (0xFB00, 0xFB06), (0xFB13, 0xFB17), (0xFF21, 0xFF3A), (0xFF41, 0xFF5A), (0x10400, 0x1044F), (0x104B0, 0x104D3),
     (0x104D8, 0x104FB), (0x10570, 0x1057A), (0x1057C, 0x1058A), (0x1058C, 0x10592), (0x10594, 0x10595), (0x10597, 0x105A1),
     (0x105A3, 0x105B1), (0x105B3, 0x105B9), (0x105BB, 0x105BC), (0x10780, 0x10780), (0x10783, 0x10785), (0x10787, 0x107B0),
     (0x107B2, 0x107BA), (0x10C80, 0x10CB2), (0x10CC0, 0x10CF2), (0x118A0, 0x118DF), (0x16E40, 0x16E7F), (0x1D400, 0x1D454),
     (0x1D456, 0x1D49C), (0x1D49E, 0x1D49F), (0x1D4A2, 0x1D4A2), (0x1D4A5, 0x1D4A6), (0x1D4A9, 0x1D4AC), (0x1D4AE, 0x1D4B9),
     (0x1D4BB, 0x1D4BB), (0x1D4BD, 0x1D4C3), (0x1D4C5, 0x1D505), (0x1D507, 0x1D50A), (0x1D50D, 0x1D514), (0x1D516, 0x1D51C),
     (0x1D51E, 0x1D539), (0x1D53B, 0x1D53E), (0x1D540, 0x1D544), (0x1D546, 0x1D546), (0x1D54A, 0x1D550), (0x1D552, 0x1D6A5),
     (0x1D6A8, 0x1D6C0), (0x1D6C2, 0x1D6DA), (0x1D6DC, 0x1D6FA), (0x1D6FC, 0x1D714), (0x1D716, 0x1D734), (0x1D736, 0x1D74E),
     (0x1D750, 0x1D76E), (0x1D770, 0x1D788), (0x1D78A, 0x1D7A8), (0x1D7AA, 0x1D7C2), (0x1D7C4, 0x1D7CB), (0x1DF00, 0x1DF09),
     (0x1DF0B, 0x1DF1E), (0x1DF25, 0x1DF2A), (0x1E030, 0x1E06D), (0x1E900, 0x1E943), (0x1F130, 0x1F149), (0x1F150, 0x1F169),
     (0x1F170, 0x1F189)]"

definition Case_Ignorable_ranges :: "(nat \<times> nat) list" where
  "Case_Ignorable_ranges =
    [(0x27, 0x27), (0x2E, 0x2E), (0x3A, 0x3A), (0x5E, 0x5E), (0x60, 0x60), (0xA8, 0xA8),
     (0xAD, 0xAD), (0xAF, 0xAF), (0xB4, 0xB4), (0xB7, 0xB8), (0x2B0, 0x36F), (0x374, 0x375),
     (0x37A, 0x37A), (0x384, 0x385), (0x387, 0x387), (0x483, 0x489), (0x559, 0x559), (0x55F, 0x55F),
     (0x591, 0x5BD), (0x5BF, 0x5BF), (0x5C1, 0x5C2), (0x5C4, 0x5C5), (0x5C7, 0x5C7), (0x5F4, 0x5F4),
     (0x600, 0x605), (0x610, 0x61A), (0x61C, 0x61C), (0x640, 0x640), (0x64B, 0x65F), (0x670, 0x670),
     (0x6D6, 0x6DD), (0x6DF, 0x6E8), (0x6EA, 0x6ED), (0x70F, 0x70F), (0x711, 0x711), (0x730, 0x74A),
     (0x7A6, 0x7B0), (0x7EB, 0x7F5), (0x7FA, 0x7FA), (0x7FD, 0x7FD), (0x816, 0x82D), (0x859, 0x85B),
     (0x888, 0x888), (0x890, 0x891), (0x898, 0x89F), (0x8C9, 0x902), (0x93A, 0x93A), (0x93C, 0x93C),
     (0x941, 0x948), (0x94D, 0x94D), (0x951, 0x957), (0x962, 0x963), (0x971, 0x971), (0x981, 0x981),
     (0x9BC, 0x9BC), (0x9C1, 0x9C4), (0x9CD, 0x9CD), (0x9E2, 0x9E3), (0x9FE, 0x9FE), (0xA01, 0xA02),
     (0xA3C, 0xA3C), (0xA41, 0xA42), (0xA47, 0xA48), (0xA4B, 0xA4D), (0xA51, 0xA51), (0xA70, 0xA71),
     (0xA75, 0xA75), (0xA81, 0xA82), (0xABC, 0xABC), (0xAC1, 0xAC5), (0xAC7, 0xAC8), (0xACD, 0xACD),
     (0xAE2, 0xAE3), (0xAFA, 0xAFF), (0xB01, 0xB01), (0xB3C, 0xB3C), (0xB3F, 0xB3F), (0xB41, 0xB44),
     (0xB4D, 0xB4D), (0xB55, 0xB56), (0xB62, 0xB63), (0xB82, 0xB82), (0xBC0, 0xBC0), (0xBCD, 0xBCD),
     (0xC00, 0xC00), (0xC04, 0xC04), (0xC3C, 0xC3C), (0xC3E, 0xC40), (0xC46, 0xC48), (0xC4A, 0xC4D),
     (0xC55, 0xC56), (0xC62, 0xC63), (0xC81, 0xC81), (0xCBC, 0xCBC), (0xCBF, 0xCBF), (0xCC6, 0xCC6),
     (0xCCC, 0xCCD), (0xCE2, 0xCE3), (0xD00, 0xD01), (0xD3B, 0xD3C), (0xD41, 0xD44), (0xD4D, 0xD4D),
     (0xD62, 0xD63), (0xD81, 0xD81), (0xDCA, 0xDCA), (0xDD2, 0xDD4), (0xDD6, 0xDD6), (0xE31, 0xE31),
     (0xE34, 0xE3A), (0xE46, 0xE4E), (0xEB1, 0xEB1), (0xEB4, 0xEBC), (0xEC6, 0xEC6), (0xEC8, 0xECE),
     (0xF18, 0xF19), (0xF35, 0xF35), (0xF37, 0xF37), (0xF39, 0xF39), (0xF71, 0xF7E), (0xF80, 0xF84),
     (0xF86, 0xF87), (0xF8D, 0xF97), (0xF99, 0xFBC), (0xFC6, 0xFC6), (0x102D, 0x1030), (0x1032, 0x1037),
     (0x1039, 0x103A), (0x103D, 0x103E), (0x1058, 0x1059), (0x105E, 0x1060), (0x1071, 0x1074), (0x1082, 0x1082),
     (0x1085, 0x1086), (0x108D, 0x108D), (0x109D, 0x109D), (0x10FC, 0x10FC), (0x135D, 0x135F), (0x1712, 0x1714),
     (0x1732, 0x1733), (0x1752, 0x1753), (0x1772, 0x1773), (0x17B4, 0x17B5), (0x17B7, 0x17BD), (0x17C6, 0x17C6),
     (0x17C9, 0x17D3), (0x17D7, 0x17D7), (0x17DD, 0x17DD), (0x180B, 0x180F), (0x1843, 0x1843), (0x1885, 0x1886),
     (0x18A9, 0x18A9), (0x1920, 0x1922), (0x1927, 0x1928), (0x1932, 0x1932), (0x1939, 0x193B), (0x1A17, 0x1A18),
     (0x1A1B, 0x1A1B), (0x1A56, 0x1A56), (0x1A58, 0x1A5E), (0x1A60, 0x1A60), (0x1A62, 0x1A62), (0x1A65, 0x1A6C),
     (0x1A73, 0x1A7C), (0x1A7F, 0x1A7F), (0x1AA7, 0x1AA7), (0x1AB0, 0x1ACE), (0x1B00, 0x1B03), (0x1B34, 0x1B34),
     (0x1B36, 0x1B3A), (0x1B3C, 0x1B3C), (0x1B42, 0x1B42), (0x1B6B, 0x1B73), (0x1B80, 0x1B81), (0x1BA2, 0x1BA5),
     (0x1BA8, 0x1BA9), (0x1BAB, 0x1BAD), (0x1BE6, 0x1BE6), (0x1BE8, 0x1BE9), (0x1BED, 0x1BED), (0x1BEF, 0x1BF1),
     (0x1C2C, 0x1C33), (0x1C36, 0x1C37), (0x1C78, 0x1C7D), (0x1CD0, 0x1CD2), (0x1CD4, 0x1CE0), (0x1CE2, 0x1CE8),
     (0x1CED, 0x1CED), (0x1CF4, 0x1CF4), (0x1CF8, 0x1CF9), (0x1D2C, 0x1D6A), (0x1D78, 0x1D78), (0x1D9B, 0x1DFF),
     (0x1FBD, 0x1FBD), (0x1FBF, 0x1FC1), (0x1FCD, 0x1FCF), (0x1FDD, 0x1FDF), (0x1FED, 0x1FEF), (0x1FFD, 0x1FFE),
     (0x200B, 0x200F), (0x2018, 0x2019), (0x2024, 0x2024), (0x2027, 0x2027), (0x202A, 0x202E), (0x2060, 0x2064),
     (0x2066, 0x206F), (0x2071, 0x2071), (0x207F, 0x207F), (0x2090, 0x209C), (0x20D0, 0x20F0), (0x2C7C, 0x2C7D),
     (0x2CEF, 0x2CF1), (0x2D6F, 0x2D6F), (0x2D7F, 0x2D7F), (0x2DE0, 0x2DFF), (0x2E2F, 0x2E2F), (0x3005, 0x3005),
     (0x302A, 0x302D), (0x3031, 0x3035), (0x303B, 0x303B), (0x3099, 0x309E), (0x30FC, 0x30FE), (0xA015, 0xA015),
     (0xA4F8, 0xA4FD), (0xA60C, 0xA60C), (0xA66F, 0xA672), (0xA674, 0xA67D), (0xA67F, 0xA67F), (0xA69C, 0xA69F),
     (0xA6F0, 0xA6F1), (0xA700, 0xA721), (0xA770, 0xA770), (0xA788, 0xA78A), (0xA7F2, 0xA7F4), (0xA7F8, 0xA7F9),
     (0xA802, 0xA802), (0xA806, 0xA806), (0xA80B, 0xA80B), (0xA825, 0xA826), (0xA82C, 0xA82C), (0xA8C4, 0xA8C5),
     (0xA8E0, 0xA8F1), (0xA8FF, 0xA8FF), (0xA926, 0xA92D), (0xA947, 0xA951), (0xA980, 0xA982), (0xA9B3, 0xA9B3),
     (0xA9B6, 0xA9B9), (0xA9BC, 0xA9BD), (0xA9CF, 0xA9CF), (0xA9E5, 0xA9E6), (0xAA29, 0xAA2E), (0xAA31, 0xAA32),
     (0xAA35, 0xAA36), (0xAA43, 0xAA43), (0xAA4C, 0xAA4C), (0xAA70, 0xAA70), (0xAA7C, 0xAA7C), (0xAAB0, 0xAAB0),
     (0xAAB2, 0xAAB4), (0xAAB7, 0xAAB8), (0xAABE, 0xAABF), (0xAAC1, 0xAAC1), (0xAADD, 0xAADD), (0xAAEC, 0xAAED),
     (0xAAF3, 0xAAF4), (0xAAF6, 0xAAF6), (0xAB5B, 0xAB5F), (0xAB69, 0xAB6B), (0xABE5, 0xABE5), (0xABE8, 0xABE8),
     (0xABED, 0xABED), (0xFB1E, 0xFB1E), (0xFBB2, 0xFBC2), (0xFE00, 0xFE0F), (0xFE13, 0xFE13), (0xFE20, 0xFE2F),
     (0xFE52, 0xFE52), (0xFE55, 0xFE55), (0xFEFF, 0xFEFF), (0xFF07, 0xFF07), (0xFF0E, 0xFF0E), (0xFF1A, 0xFF1A),
     (0xFF3E, 0xFF3E), (0xFF40, 0xFF40), (0xFF70, 0xFF70), (0xFF9E, 0xFF9F), (0xFFE3, 0xFFE3), (0xFFF9, 0xFFFB),
     (0x101FD, 0x101FD), (0x102E0, 0x102E0), (0x10376, 0x1037A), (0x10780, 0x10785), (0x10787, 0x107B0), (0x107B2, 0x107BA),
     (0x10A01, 0x10A03), (0x10A05, 0x10A06), (0x10A0C, 0x10A0F), (0x10A38, 0x10A3A), (0x10A3F, 0x10A3F), (0x10AE5, 0x10AE6),
     (0x10D24, 0x10D27), (0x10EAB, 0x10EAC), (0x10EFD, 0x10EFF), (0x10F46, 0x10F50), (0x10F82, 0x10F85), (0x11001, 0x11001),
     (0x11038, 0x11046), (0x11070, 0x11070), (0x11073, 0x11074), (0x1107F, 0x11081), (0x110B3, 0x110B6), (0x110B9, 0x110BA),
     (0x110BD, 0x110BD), (0x110C2, 0x110C2), (0x110CD, 0x110CD), (0x11100, 0x11102), (0x11127, 0x1112B), (0x1112D, 0x11134),
     (0x11173, 0x11173), (0x11180, 0x11181), (0x111B6, 0x111BE), (0x111C9, 0x111CC), (0x111CF, 0x111CF), (0x1122F, 0x11231),
     (0x11234, 0x11234), (0x11236, 0x11237), (0x1123E, 0x1123E), (0x11241, 0x11241), (0x112DF, 0x112DF), (0x112E3, 0x112EA),
     (0x11300, 0x11301), (0x1133B, 0x1133C), (0x11340, 0x11340), (0x11366, 0x1136C), (0x11370, 0x11374), (0x11438, 0x1143F),
     (0x11442, 0x11444), (0x11446, 0x11446), (0x1145E, 0x1145E), (0x114B3, 0x114B8), (0x114BA, 0x114BA), (0x114BF, 0x114C0),
     (0x114C2, 0x114C3), (0x115B2, 0x115B5), (0x115BC, 0x115BD), (0x115BF, 0x115C0), (0x115DC, 0x115DD), (0x11633, 0x1163A),
     (0x1163D, 0x1163D), (0x1163F, 0x11640), (0x116AB, 0x116AB), (0x116AD, 0x116AD), (0x116B0, 0x116B5), (0x116B7, 0x116B7),
     (0x1171D, 0x1171F), (0x11722, 0x11725), (0x11727, 0x1172B), (0x1182F, 0x11837), (0x11839, 0x1183A), (0x1193B, 0x1193C),
     (0x1193E, 0x1193E), (0x11943, 0x11943), (0x119D4, 0x119D7), (0x119DA, 0x119DB), (0x119E0, 0x119E0), (0x11A01, 0x11A0A),
     (0x11A33, 0x11A38), (0x11A3B, 0x11A3E), (0x11A47, 0x11A47), (0x11A51, 0x11A56), (0x11A59, 0x11A5B), (0x11A8A, 0x11A96),
     (0x11A98, 0x11A99), (0x11C30, 0x11C36), (0x11C38, 0x11C3D), (0x11C3F, 0x11C3F), (0x11C92, 0x11CA7), (0x11CAA, 0x11CB0),
     (0x11CB2, 0x11CB3), (0x11CB5, 0x11CB6), (0x11D31, 0x11D36), (0x11D3A, 0x11D3A), (0x11D3C, 0x11D3D), (0x11D3F, 0x11D45),
     (0x11D47, 0x11D47), (0x11D90, 0x11D91), (0x11D95, 0x11D95), (0x11D97, 0x11D97), (0x11EF3, 0x11EF4), (0x11F00, 0x11F01),
     (0x11F36, 0x11F3A), (0x11F40, 0x11F40), (0x11F42, 0x11F42), (0x13430, 0x13440), (0x13447, 0x13455), (0x16AF0, 0x16AF4),
     (0x16B30, 0x16B36), (0x16B40, 0x16B43), (0x16F4F, 0x16F4F), (0x16F8F, 0x16F9F), (0x16FE0, 0x16FE1), (0x16FE3, 0x16FE4),
     (0x1AFF0, 0x1AFF3), (0x1AFF5, 0x1AFFB), (0x1AFFD, 0x1AFFE), (0x1BC9D, 0x1BC9E), (0x1BCA0, 0x1BCA3), (0x1CF00, 0x1CF2D),
     (0x1CF30, 0x1CF46), (0x1D167, 0x1D169), (0x1D173, 0x1D182), (0x1D185, 0x1D18B), (0x1D1AA, 0x1D1AD), (0x1D242, 0x1D244),
     (0x1DA00, 0x1DA36), (0x1DA3B, 0x1DA6C), (0x1DA75, 0x1DA75), (0x1DA84, 0x1DA84), (0x1DA9B, 0x1DA9F), (0x1DAA1, 0x1DAAF),
     (0x1E000, 0x1E006), (0x1E008, 0x1E018), (0x1E01B, 0x1E021), (0x1E023, 0x1E024), (0x1E026, 0x1E02A), (0x1E030, 0x1E06D),
     (0x1E08F, 0x1E08F), (0x1E130, 0x1E13D), (0x1E2AE, 0x1E2AE), (0x1E2EC, 0x1E2EF), (0x1E4EB, 0x1E4EF), (0x1E8D0, 0x1E8D6),
     (0x1E944, 0x1E94B), (0x1F3FB, 0x1F3FF), (0xE0001, 0xE0001), (0xE0020, 0xE007F), (0xE0100, 0xE01EF)]"

fun in_ranges :: "(nat \<times> nat) list \<Rightarrow> nat \<Rightarrow> bool" where
  "in_ranges [] c = False"
| "in_ranges ((lo, hi) # rs) c =
     (if c < lo then False else if c \<le> hi then True else in_ranges rs c)"

definition Cased :: "nat \<Rightarrow> bool" where
  "Cased c = in_ranges Cased_ranges c"

definition Case_Ignorable :: "nat \<Rightarrow> bool" where
  "Case_Ignorable c = in_ranges Case_Ignorable_ranges c"

text \<open>
  \<open>Final_Sigma\<close>, the one condition of SpecialCasing.txt that applies whatever the
  language: before the sigma, skipping code points that are Case_Ignorable, comes a Cased
  one, and after it, skipping likewise, comes none. \<open>before\<close> holds the code points that
  precede, nearest first; \<open>after\<close> those that follow.
\<close>

definition Final_Sigma :: "nat list \<Rightarrow> nat list \<Rightarrow> bool" where
  "Final_Sigma before after =
     ((case dropWhile Case_Ignorable before of [] \<Rightarrow> False | c # _ \<Rightarrow> Cased c) \<and>
      \<not> (case dropWhile Case_Ignorable after of [] \<Rightarrow> False | c # _ \<Rightarrow> Cased c))"

text \<open>
  The lowercase mapping of one code point in its context: final or non-final small sigma
  for U+03A3, \<open>i\<close> and a combining dot above for U+0130, the simple mapping otherwise.
\<close>

definition Lowercase_Mapping :: "nat list \<Rightarrow> nat \<Rightarrow> nat list \<Rightarrow> nat list" where
  "Lowercase_Mapping before c after =
     (if c = 0x3A3 then (if Final_Sigma before after then [0x3C2] else [0x3C3])
      else if c = 0x130 then [0x69, 0x307]
      else [Simple_Lowercase_Mapping c])"

fun toLowercase_from :: "nat list \<Rightarrow> nat list \<Rightarrow> nat list" where
  "toLowercase_from before [] = []"
| "toLowercase_from before (c # after) =
     Lowercase_Mapping before c after @ toLowercase_from (c # before) after"

definition toLowercase :: "nat list \<Rightarrow> nat list" where
  "toLowercase cps = toLowercase_from [] cps"

definition toLowerCase :: "string \<Rightarrow> string" where
  "toLowerCase s = CodePointsToString (toLowercase (StringToCodePoints s))"

subsection \<open>White space\<close>

text \<open>
  \<open>WhiteSpace\<close>: TAB, VT, FF, ZWNBSP and the code points of general category
  Space_Separator. \<open>LineTerminator\<close>: LF, CR, LS, PS. \<open>trim\<close> removes the leading and the
  trailing code points that are one or the other.
\<close>

definition WhiteSpace :: "nat \<Rightarrow> bool" where
  "WhiteSpace c =
     (c \<in> set [0x09, 0x0B, 0x0C, 0xFEFF, 0x20, 0xA0, 0x1680, 0x2000, 0x2001, 0x2002, 0x2003,
                0x2004, 0x2005, 0x2006, 0x2007, 0x2008, 0x2009, 0x200A, 0x202F, 0x205F, 0x3000])"

definition LineTerminator :: "nat \<Rightarrow> bool" where
  "LineTerminator c = (c \<in> set [0x0A, 0x0D, 0x2028, 0x2029])"

definition isWhiteSpace :: "nat \<Rightarrow> bool" where
  "isWhiteSpace c = (WhiteSpace c \<or> LineTerminator c)"

definition trim :: "string \<Rightarrow> string" where
  "trim s =
     CodePointsToString
       (rev (dropWhile isWhiteSpace (rev (dropWhile isWhiteSpace (StringToCodePoints s)))))"

subsection \<open>Searching, padding and slugs\<close>

text \<open>\<open>s.startsWith(q)\<close> and \<open>s.includes(q)\<close>: \<open>q\<close> occurs in \<open>s\<close> at some position.\<close>

fun startsWith :: "string \<Rightarrow> string \<Rightarrow> bool" where
  "startsWith s [] = True"
| "startsWith [] (c # q) = False"
| "startsWith (d # s) (c # q) = (d = c \<and> startsWith s q)"

fun includes_str :: "string \<Rightarrow> string \<Rightarrow> bool" where
  "includes_str [] q = (q = [])"
| "includes_str (c # s) q = (startsWith (c # s) q \<or> includes_str s q)"

text \<open>
  \<open>s.padStart(targetLength, padString)\<close>: the pad string, repeated and cut to the missing
  length, in front of \<open>s\<close>.
\<close>

definition padStart :: "nat \<Rightarrow> string \<Rightarrow> string \<Rightarrow> string" where
  "padStart targetLength padString s =
     (if targetLength \<le> length s \<or> padString = [] then s
      else take (targetLength - length s)
             (concat (replicate (targetLength - length s) padString)) @ s)"

text \<open>
  \<open>slugify\<close>:
  \<^verbatim>\<open>s.toLowerCase().replace(/[^a-z0-9]+/g, "-").replace(/(^-|-$)/g, "")\<close>.
  The first replacement turns every maximal run of characters outside \<open>a-z0-9\<close> into one
  hyphen; the second deletes a hyphen at the very start and a hyphen at the very end.
\<close>

definition isSlugChar :: "char \<Rightarrow> bool" where
  "isSlugChar c = (c \<in> set ''abcdefghijklmnopqrstuvwxyz0123456789'')"

function replaceRuns :: "string \<Rightarrow> string" where
  "replaceRuns [] = []"
| "replaceRuns (c # s) =
     (if isSlugChar c then c # replaceRuns s
      else CHR ''-'' # replaceRuns (dropWhile (\<lambda>d. \<not> isSlugChar d) s))"
  by pat_completeness auto
termination
  by (relation "measure length") (simp_all add: le_imp_less_Suc length_dropWhile_le)

definition stripHyphens :: "string \<Rightarrow> string" where
  "stripHyphens s =
     (let s1 = (if startsWith s ''-'' then tl s else s)
      in if s1 \<noteq> [] \<and> last s1 = CHR ''-'' then butlast s1 else s1)"

definition slugify :: "string \<Rightarrow> string" where
  "slugify s = stripHyphens (replaceRuns (toLowerCase s))"

section \<open>Numbers\<close>

text \<open>
  A JavaScript Number is an IEEE 754 binary64 value. A Number that is an integer is
  modelled as the \<^typ>\<open>int\<close> it equals: every integer up to \<open>2^53\<close> is a Number, and on
  these \<open>+\<close>, \<open>-\<close> and the comparisons of the script are exact (a larger integer \<open>X\<close> is a
  Number when \<open>to_double X 1 = (X, 1)\<close> below). Values that are not integers arise only
  as a quotient \<open>a / b\<close> or as a product \<open>Math.random() * c\<close>, and go at once into
  \<open>Math.floor\<close> or \<open>toFixed(1)\<close>. Such a value is modelled exactly, as the fraction
  \<open>num / den\<close> whose denominator is a power of two, after rounding to the nearest Number
  as the hardware does.
\<close>

text \<open>The decimal digits of a natural number.\<close>

definition digit :: "nat \<Rightarrow> char" where
  "digit d = ''0123456789'' ! d"

definition isDigit :: "char \<Rightarrow> bool" where
  "isDigit c = (c \<in> set ''0123456789'')"

function decimal :: "nat \<Rightarrow> string" where
  "decimal n = (if n < 10 then [digit n] else decimal (n div 10) @ [digit (n mod 10)])"
  by pat_completeness auto
termination
  by (relation "measure (\<lambda>n. n)") simp_all

declare decimal.simps [simp del]

text \<open>
  Rounding the positive fraction \<open>a / b\<close> to the nearest Number, ties to the even
  significand. \<open>scale_up a b 0\<close> is the least \<open>k\<close> with \<open>2^52 \<le> a * 2^k / b\<close>, and
  \<open>scale_down a b 0\<close> the least \<open>j\<close> with \<open>a / (b * 2^j) < 2^53\<close>: one of the two is \<open>0\<close>,
  and the scaled fraction lies in the range of a 53-bit significand, where it is
  rounded to an integer. The result is the pair of a numerator and a denominator.
  Subnormal results and overflow do not occur for the fractions the script forms.
\<close>

definition round_nearest_even :: "nat \<Rightarrow> nat \<Rightarrow> nat" where
  "round_nearest_even a b =
     (let q = a div b; r = a mod b in
      if 2 * r < b then q
      else if b < 2 * r then q + 1
      else if even q then q else q + 1)"

function scale_up :: "nat \<Rightarrow> nat \<Rightarrow> nat \<Rightarrow> nat" where
  "scale_up a b k = (if a = 0 \<or> 2 ^ 52 * b \<le> a * 2 ^ k then k else scale_up a b (Suc k))"
  by pat_completeness auto
termination
proof (relation "measure (\<lambda>(a, b, k). 2 ^ 52 * b - a * 2 ^ k)")
  show "wf (measure (\<lambda>(a, b, k). 2 ^ 52 * b - a * 2 ^ k))" by simp
next
  fix a b k :: nat
  assume "\<not> (a = 0 \<or> 2 ^ 52 * b \<le> a * 2 ^ k)"
  then have "0 < a * 2 ^ k" and "a * 2 ^ k < 2 ^ 52 * b" by simp_all
  moreover have "a * 2 ^ Suc k = 2 * (a * 2 ^ k)" by simp
  ultimately have "2 ^ 52 * b - a * 2 ^ Suc k < 2 ^ 52 * b - a * 2 ^ k"
    by linarith
  then show "((a, b, Suc k), (a, b, k)) \<in> measure (\<lambda>(a, b, k). 2 ^ 52 * b - a * 2 ^ k)"
    by (simp only: in_measure prod.case)
qed

function scale_down :: "nat \<Rightarrow> nat \<Rightarrow> nat \<Rightarrow> nat" where
  "scale_down a b j = (if b = 0 \<or> a < 2 ^ 53 * b * 2 ^ j then j else scale_down a b (Suc j))"
  by pat_completeness auto
termination
proof (relation "measure (\<lambda>(a, b, j). Suc a - 2 ^ 53 * b * 2 ^ j)")
  show "wf (measure (\<lambda>(a, b, j). Suc a - 2 ^ 53 * b * 2 ^ j))" by simp
next
  fix a b j :: nat
  assume "\<not> (b = 0 \<or> a < 2 ^ 53 * b * 2 ^ j)"
  then have "0 < 2 ^ 53 * b * 2 ^ j" and "2 ^ 53 * b * 2 ^ j \<le> a" by simp_all
  moreover have "2 ^ 53 * b * 2 ^ Suc j = 2 * (2 ^ 53 * b * 2 ^ j)" by simp
  ultimately have "Suc a - 2 ^ 53 * b * 2 ^ Suc j < Suc a - 2 ^ 53 * b * 2 ^ j"
    by linarith
  then show "((a, b, Suc j), (a, b, j)) \<in> measure (\<lambda>(a, b, j). Suc a - 2 ^ 53 * b * 2 ^ j)"
    by (simp only: in_measure prod.case)
qed

declare scale_up.simps [simp del] scale_down.simps [simp del]

definition to_double :: "nat \<Rightarrow> nat \<Rightarrow> nat \<times> nat" where
  "to_double a b =
     (if a = 0 \<or> b = 0 then (0, 1)
      else let k = scale_up a b 0; j = scale_down a b 0 in
        (round_nearest_even (a * 2 ^ k) (b * 2 ^ j) * 2 ^ j, 2 ^ k))"

datatype double = Double (num: int) (den: nat)

text \<open>
  \<open>a / b\<close> for integers \<open>a\<close> and \<open>b\<close>; the script divides by the literals \<open>1e9\<close>, \<open>1e6\<close>,
  \<open>1e3\<close>, \<open>30\<close> and \<open>365\<close> only, never by zero.
\<close>

definition fdiv :: "int \<Rightarrow> int \<Rightarrow> double" where
  "fdiv a b =
     (case to_double (nat \<bar>a\<bar>) (nat \<bar>b\<bar>) of
        (m, d) \<Rightarrow> Double (if (a < 0) \<noteq> (b < 0) then - int m else int m) d)"

definition Math_floor :: "double \<Rightarrow> int" where
  "Math_floor x = num x div int (den x)"

text \<open>
  Number::toString (ECMAScript) for an integer \<open>X\<close> that is a Number: the digits of the
  shortest \<open>s\<close> for which some \<open>s * 10^(n - k)\<close>, with \<open>k\<close> the number of digits of \<open>s\<close>,
  rounds to \<open>X\<close>, and of these the one nearest to \<open>X\<close>; followed by \<open>n - k\<close> zeros when
  \<open>n \<le> 21\<close>, and written with an exponent, as in \<open>1.5e+21\<close>, otherwise. For an integer
  below \<open>2^53\<close> these are its decimal digits.
\<close>

function digit_count :: "nat \<Rightarrow> nat" where
  "digit_count n = (if n < 10 then 1 else digit_count (n div 10) + 1)"
  by pat_completeness auto
termination
  by (relation "measure (\<lambda>n. n)") simp_all

declare digit_count.simps [simp del]

definition repr_candidates :: "nat \<Rightarrow> nat \<Rightarrow> (nat \<times> nat) list" where
  "repr_candidates X k =
     (let L = digit_count X in
      [(n, s). n \<leftarrow> [L - 1, L, L + 1], s \<leftarrow> [X div 10 ^ (n - k), X div 10 ^ (n - k) + 1],
         k \<le> n \<and> 10 ^ (k - 1) \<le> s \<and> s < 10 ^ k \<and> to_double (s * 10 ^ (n - k)) 1 = (X, 1)])"

function shortest_repr :: "nat \<Rightarrow> nat \<Rightarrow> (nat \<times> nat \<times> nat) option" where
  "shortest_repr X k =
     (if digit_count X < k then None
      else case repr_candidates X k of
             [] \<Rightarrow> shortest_repr X (Suc k)
           | c # cs \<Rightarrow>
               Some (k, arg_min_list (\<lambda>(n, s). \<bar>int (s * 10 ^ (n - k)) - int X\<bar>) (c # cs)))"
  by pat_completeness auto
termination
  by (relation "measure (\<lambda>(X, k). Suc (digit_count X) - k)") simp_all

declare shortest_repr.simps [simp del]

definition ToString_large :: "nat \<Rightarrow> string" where
  "ToString_large X =
     (case shortest_repr X 1 of
        None \<Rightarrow> decimal X
      | Some (k, n, s) \<Rightarrow>
          (let ds = decimal s
           in if n \<le> 21 then ds @ replicate (n - k) CHR ''0''
              else if k = 1 then ds @ ''e+'' @ decimal (n - 1)
              else [hd ds] @ ''.'' @ tl ds @ ''e+'' @ decimal (n - 1)))"

text \<open>
  An integer Number to a string, as a template literal and \<open>+\<close> with a string do it.
\<close>

definition ToString :: "int \<Rightarrow> string" where
  "ToString n =
     (let X = nat \<bar>n\<bar>;
          digits = (if X < 2 ^ 53 then decimal X else ToString_large X)
      in if n < 0 then ''-'' @ digits else digits)"

text \<open>
  \<open>x.toFixed(1)\<close> for \<open>0 \<le> x\<close> (ECMAScript, Number.prototype.toFixed): for \<open>x \<ge> 1e21\<close>
  the result of Number::toString; else, with \<open>n\<close> the integer for which \<open>n / 10 - x\<close> is
  closest to zero, the larger one on a tie (that is, the floor of \<open>10 * x + 1/2\<close>), the
  digits of \<open>n\<close> with a point before the last one. \<open>formatViews\<close> calls it on quotients
  that are at least \<open>1\<close>.
\<close>

definition nearest_tenths :: "double \<Rightarrow> nat" where
  "nearest_tenths x = nat ((20 * num x + int (den x)) div (2 * int (den x)))"

definition toFixed1 :: "double \<Rightarrow> string" where
  "toFixed1 x =
     (if 10 ^ 21 * int (den x) \<le> num x then ToString_large (nat (num x div int (den x)))
      else let n = nearest_tenths x
           in decimal (n div 10) @ ''.'' @ decimal (n mod 10))"

section \<open>Formatter utilities\<close>

text \<open>
  \<^verbatim>\<open>
  const formatViews = (n) => {
      if (n >= 1e9) return (n / 1e9).toFixed(1) + "B views";
      if (n >= 1e6) return (n / 1e6).toFixed(1) + "M views";
      if (n >= 1e3) return (n / 1e3).toFixed(1) + "K views";
      return n + " views";
  };
  \<close>
\<close>

definition formatViews :: "int \<Rightarrow> string" where
  "formatViews n =
     (if n \<ge> 10 ^ 9 then toFixed1 (fdiv n (10 ^ 9)) @ ''B views''
      else if n \<ge> 10 ^ 6 then toFixed1 (fdiv n (10 ^ 6)) @ ''M views''
      else if n \<ge> 10 ^ 3 then toFixed1 (fdiv n (10 ^ 3)) @ ''K views''
      else ToString n @ '' views'')"

text \<open>
  \<^verbatim>\<open>
  const timeAgo = (days) => {
      if (days < 1) return "Today";
      if (days === 1) return "1 day ago";
      if (days < 30) return `${days} days ago`;
      if (days < 365) return `${Math.floor(days / 30)} months ago`;
      return `${Math.floor(days / 365)} years ago`;
  };
  \<close>
\<close>

definition timeAgo :: "int \<Rightarrow> string" where
  "timeAgo days =
     (if days < 1 then ''Today''
      else if days = 1 then ''1 day ago''
      else if days < 30 then ToString days @ '' days ago''
      else if days < 365 then ToString (Math_floor (fdiv days 30)) @ '' months ago''
      else ToString (Math_floor (fdiv days 365)) @ '' years ago'')"

section \<open>Data model\<close>

text \<open>A video record, as \<open>generateVideos\<close> pushes it (the field \<open>id\<close> is \<open>video_id\<close> here).\<close>

record video =
  video_id :: string
  title :: string
  channel :: string
  category :: string
  views :: int
  daysAgo :: int
  thumbUrl :: string
  avatarUrl :: string
  duration :: string

definition CATEGORIES :: "string list" where
  "CATEGORIES = [''All'', ''Music'', ''Gaming'', ''News'', ''Sports'', ''Education'',
     ''Comedy'', ''Technology'', ''Lifestyle'']"

section \<open>Data generation\<close>

text \<open>
  \<open>Math.random()\<close> returns a Number that is at least \<open>0\<close> and less than \<open>1\<close>. Such a
  Number is \<open>mantissa / 2^exponent\<close> with a mantissa below \<open>2^53\<close>. The random source is
  the sequence of the values that the successive calls return; a call takes the head.
\<close>

record random_number =
  mantissa :: nat
  exponent :: nat

definition valid_random :: "random_number \<Rightarrow> bool" where
  "valid_random u = (mantissa u < 2 ^ 53 \<and> mantissa u < 2 ^ exponent u)"

type_synonym rng = "nat \<Rightarrow> random_number"

definition valid_rng :: "rng \<Rightarrow> bool" where
  "valid_rng g = (\<forall>i. valid_random (g i))"

definition Math_random :: "rng \<Rightarrow> random_number \<times> rng" where
  "Math_random g = (g 0, \<lambda>i. g (Suc i))"

text \<open>The product \<open>u * c\<close> of a random Number and an integer, rounded to a Number.\<close>

definition fmul :: "random_number \<Rightarrow> int \<Rightarrow> double" where
  "fmul u c =
     (case to_double (mantissa u * nat \<bar>c\<bar>) (2 ^ exponent u) of
        (m, d) \<Rightarrow> Double (if c < 0 then - int m else int m) d)"

text \<open>
  \<^verbatim>\<open>
  const rand = (min, max) => Math.floor(Math.random() * (max - min + 1)) + min;
  const pick = (arr) => arr[rand(0, arr.length - 1)];
  \<close>
  \<open>pick\<close> returns \<open>None\<close> for JavaScript's \<open>undefined\<close>, the value of a read outside
  the array.
\<close>

definition rand :: "int \<Rightarrow> int \<Rightarrow> rng \<Rightarrow> int \<times> rng" where
  "rand min' max' g =
     (let (u, g') = Math_random g
      in (Math_floor (fmul u (max' - min' + 1)) + min', g'))"

definition pick :: "'a list \<Rightarrow> rng \<Rightarrow> 'a option \<times> rng" where
  "pick arr g =
     (let (i, g') = rand 0 (int (length arr) - 1) g
      in (if 0 \<le> i \<and> i < int (length arr) then Some (arr ! nat i) else None, g'))"

definition sampleTitles :: "string list" where
  "sampleTitles = [
     ''Relaxing Lo-fi Beats'',
     ''Top 10 JavaScript Tricks'',
     ''Epic Gameplay Highlights'',
     ''Breaking News Update'',
     ''Daily Workout Routine'',
     ''Stand-up Comedy Set'',
     ''How to Build a Portfolio'',
     ''Gadget Review: Latest Phone'',
     ''Cooking: 30-minute Meals'',
     ''Study With Me '' @ [CHR 0xE2, CHR 0x80, CHR 0x94] @ '' Focus Session'',
     ''Travel Vlog: Hidden Gems'',
     ''Beginner Guitar Lesson'']"

definition sampleChannels :: "string list" where
  "sampleChannels = [''TechFlow'', ''DailyBeat'', ''GameStream'', ''NewsNow'', ''FitLife'',
     ''LaughCast'', ''LearnHub'', ''GizmoLab'', ''KitchenLite'', ''StudyCorner'', ''Wanderer'',
     ''AcousticSoul'']"

text \<open>
  One round of the loop of \<open>generateVideos\<close>: the record for index \<open>i\<close>, from ten
  random numbers in the order of the source. The result is \<open>None\<close> when a \<open>pick\<close>
  returned \<open>undefined\<close>, so that the object pushed is not a video record.
  \<^verbatim>\<open>
  const category = pick(CATEGORIES.slice(1)); // exclude "All"
  const title = `${pick(sampleTitles)} ${rand(1, 999)}`;
  const channel = pick(sampleChannels);
  const views = rand(500, 10_000_000);
  const daysAgo = rand(0, 1200);
  const thumbId = rand(10, 1000);
  const avatarId = rand(1, 70);
  const durationMin = rand(1, 20);
  const durationSec = rand(0, 59);
  const duration = `${durationMin}:${durationSec.toString().padStart(2, "0")}`;
  arr.push({ id: `vid-${i}-${slugify(title)}`, title, channel, category, views, daysAgo,
      thumbUrl: `https://picsum.photos/id/${thumbId}/480/270`,
      avatarUrl: `https://i.pravatar.cc/40?img=${avatarId}`, duration });
  \<close>
\<close>

definition newVideo :: "nat \<Rightarrow> rng \<Rightarrow> video option \<times> rng" where
  "newVideo i g =
     (let (category', g) = pick (drop 1 CATEGORIES) g;
          (sampleTitle, g) = pick sampleTitles g;
          (titleNo, g) = rand 1 999 g;
          (channel', g) = pick sampleChannels g;
          (views', g) = rand 500 10000000 g;
          (daysAgo', g) = rand 0 1200 g;
          (thumbId, g) = rand 10 1000 g;
          (avatarId, g) = rand 1 70 g;
          (durationMin, g) = rand 1 20 g;
          (durationSec, g) = rand 0 59 g;
          duration' = ToString durationMin @ '':'' @ padStart 2 ''0'' (ToString durationSec)
      in (case (category', sampleTitle, channel') of
            (Some category', Some sampleTitle, Some channel') \<Rightarrow>
              (let title' = sampleTitle @ '' '' @ ToString titleNo in
               Some \<lparr>video_id = ''vid-'' @ decimal i @ ''-'' @ slugify title',
                     title = title',
                     channel = channel',
                     category = category',
                     views = views',
                     daysAgo = daysAgo',
                     thumbUrl = ''https://picsum.photos/id/'' @ ToString thumbId @ ''/480/270'',
                     avatarUrl = ''https://i.pravatar.cc/40?img='' @ ToString avatarId,
                     duration = duration'\<rparr>)
          | _ \<Rightarrow> None,
          g))"

text \<open>
  \<^verbatim>\<open>
  function generateVideos(count) {
      const arr = [];
      for (let i = 0; i < count; i++) { ... arr.push({...}); }
      return arr;
  }
  \<close>
  The loop, from index \<open>i\<close> with the records pushed so far.
\<close>

function generateVideos_loop :: "nat \<Rightarrow> nat \<Rightarrow> video list \<Rightarrow> rng \<Rightarrow> video list option" where
  "generateVideos_loop i count arr g =
     (if i < count then
        (case newVideo i g of
           (Some v, g') \<Rightarrow> generateVideos_loop (Suc i) count (arr @ [v]) g'
         | (None, g') \<Rightarrow> None)
      else Some arr)"
  by pat_completeness auto
termination
  by (relation "measure (\<lambda>(i, count, arr, g). count - i)") simp_all

declare generateVideos_loop.simps [simp del]

definition generateVideos :: "nat \<Rightarrow> rng \<Rightarrow> video list option" where
  "generateVideos count g = generateVideos_loop 0 count [] g"

text \<open>
  What the loop's round for index \<open>i\<close> promises of its record: a category other than
  "All", the ranges of views and age, a duration of minutes, a colon and two digits of
  seconds, and an id made of the index and the slug of the title.
\<close>

definition generated :: "nat \<Rightarrow> video \<Rightarrow> bool" where
  "generated i v =
     (category v \<in> set (drop 1 CATEGORIES) \<and>
      500 \<le> views v \<and> views v \<le> 10000000 \<and>
      0 \<le> daysAgo v \<and> daysAgo v \<le> 1200 \<and>
      (\<exists>m s. 1 \<le> m \<and> m \<le> 20 \<and> s \<le> 59 \<and>
         duration v = decimal m @ '':'' @ [digit (s div 10), digit (s mod 10)]) \<and>
      video_id v = ''vid-'' @ decimal i @ ''-'' @ slugify (title v))"

section \<open>Page state\<close>

text \<open>
  What the script reads and writes: the \<open>data-theme\<close> attribute of the body, the text
  and the title of the theme toggle, the local storage, the module's variables
  \<open>selectedCategory\<close> and \<open>videos\<close>, the text of the search field, and the children of
  the video grid. Event listeners and timers are not part of it.
\<close>

datatype content = TextContent string | InnerHTML string

record element =
  tagName :: string
  className :: string
  tabIndex :: "int option"
  aria_label :: "string option"
  content :: content

record page =
  data_theme :: "string option"
  themeToggle_textContent :: string
  themeToggle_title :: string
  localStorage :: "string \<rightharpoonup> string"
  selectedCategory :: string
  videos :: "video list"
  searchInput_value :: string
  videosGrid :: "element list"

section \<open>Theme\<close>

text \<open>
  \<^verbatim>\<open>
  const THEMES = {
      light: { icon: <crescent moon>, label: "Switch to dark theme" },
      dark: { icon: <sun>, label: "Switch to light theme" },
  };
  \<close>
  The icons are the UTF-8 bytes of U+1F319, and of U+2600 U+FE0F.
\<close>

record theme_entry =
  icon :: string
  label :: string

definition THEMES :: "string \<rightharpoonup> theme_entry" where
  "THEMES = map_of [
     (''light'', \<lparr>icon = [CHR 0xF0, CHR 0x9F, CHR 0x8C, CHR 0x99],
                  label = ''Switch to dark theme''\<rparr>),
     (''dark'', \<lparr>icon = [CHR 0xE2, CHR 0x98, CHR 0x80, CHR 0xEF, CHR 0xB8, CHR 0x8F],
                 label = ''Switch to light theme''\<rparr>)]"

text \<open>
  \<^verbatim>\<open>
  function applyTheme(theme) {
      body.setAttribute("data-theme", theme);
      themeToggle.textContent = THEMES[theme].icon;
      themeToggle.title = THEMES[theme].label;
      localStorage.setItem("ytcl_theme", theme);
  }
  \<close>
  For a theme that is no key of \<open>THEMES\<close> the lookup is \<open>undefined\<close> and reading its
  \<open>icon\<close> throws a TypeError, after the attribute has been set. (Names that every
  object inherits, such as "constructor", are not modelled.) A call returns how it
  completed together with the page it leaves.
\<close>

datatype completion = Normal | TypeError

definition applyTheme :: "string \<Rightarrow> page \<Rightarrow> completion \<times> page" where
  "applyTheme theme s =
     (let s = s\<lparr>data_theme := Some theme\<rparr> in
      case THEMES theme of
        None \<Rightarrow> (TypeError, s)
      | Some entry \<Rightarrow>
          (Normal, s\<lparr>themeToggle_textContent := icon entry,
                      themeToggle_title := label entry,
                      localStorage := (localStorage s)(''ytcl_theme'' \<mapsto> theme)\<rparr>))"

text \<open>
  \<^verbatim>\<open>
  function toggleTheme() {
      const current = body.getAttribute("data-theme") || "light";
      applyTheme(current === "light" ? "dark" : "light");
  }
  \<close>
  \<open>getAttribute\<close> returns \<open>null\<close> for an absent attribute; \<open>null\<close> and the empty string
  are falsy.
\<close>

definition toggleTheme :: "page \<Rightarrow> completion \<times> page" where
  "toggleTheme s =
     (let current = (case data_theme s of
                       None \<Rightarrow> ''light''
                     | Some a \<Rightarrow> if a = [] then ''light'' else a)
      in applyTheme (if current = ''light'' then ''dark'' else ''light'') s)"

section \<open>Filter pipeline\<close>

text \<open>
  \<^verbatim>\<open>
  function filterVideosByQuery(list, query) {
      if (!query) return list;
      const q = query.toLowerCase().trim();
      return list.filter((v) => v.title.toLowerCase().includes(q) ||
          v.channel.toLowerCase().includes(q) || v.category.toLowerCase().includes(q));
  }
  \<close>
  The query is a string (\<open>renderVideos\<close> passes \<open>searchInput.value || ""\<close>), so it is
  falsy exactly when it is empty.
\<close>

definition filterVideosByQuery :: "video list \<Rightarrow> string \<Rightarrow> video list" where
  "filterVideosByQuery list query =
     (if query = [] then list
      else let q = trim (toLowerCase query) in
        filter (\<lambda>v. includes_str (toLowerCase (title v)) q \<or>
                    includes_str (toLowerCase (channel v)) q \<or>
                    includes_str (toLowerCase (category v)) q) list)"

text \<open>
  The first half of \<open>renderVideos\<close>: the value of its local \<open>list\<close> when the empty
  check is reached, from the module's \<open>videos\<close> and \<open>selectedCategory\<close> and the search
  field's text.
  \<^verbatim>\<open>
  let list = videos.slice();
  if (selectedCategory !== "All") {
      list = list.filter((v) => v.category === selectedCategory);
  }
  const q = searchInput.value || "";
  list = filterVideosByQuery(list, q);
  \<close>
\<close>

definition filteredList :: "page \<Rightarrow> video list" where
  "filteredList s =
     (let list = videos s;
          list = (if selectedCategory s \<noteq> ''All''
                  then filter (\<lambda>v. category v = selectedCategory s) list else list);
          q = (if searchInput_value s \<noteq> [] then searchInput_value s else [])
      in filterVideosByQuery list q)"

text \<open>
  \<open>createVideoCard\<close>: an \<open>article\<close> of class \<open>video-card\<close> with \<open>tabIndex\<close> 0, its
  \<open>aria-label\<close>, and the markup the template literal assigns to \<open>innerHTML\<close> (the click
  and keydown listeners are left out). The bullet between views and age is U+2022.
\<close>

definition newline :: string where
  "newline = [CHR 0x0A]"

definition createVideoCard :: "video \<Rightarrow> element" where
  \<open>createVideoCard video =
     \<lparr>tagName = ''article'',
      className = ''video-card'',
      tabIndex = Some 0,
      aria_label = Some (title video @ '' by '' @ channel video),
      content = InnerHTML (newline @
''            <div class="thumb" role="img" aria-label="'' @ title video @ ''">'' @ newline @
''                <img loading="lazy" src="'' @ thumbUrl video @ ''" alt="'' @ title video @ ''">'' @ newline @
''                <span class="duration">'' @ duration video @ ''</span>'' @ newline @
''            </div>'' @ newline @
''            <div class="meta">'' @ newline @
''                <img class="avatar" src="'' @ avatarUrl video @ ''" alt="'' @ channel video @ '' avatar" loading="lazy">'' @ newline @
''                <div class="info">'' @ newline @
''                    <h3 class="title">'' @ title video @ ''</h3>'' @ newline @
''                    <p class="channel">'' @ channel video @ ''</p>'' @ newline @
''                    <p class="stats">'' @ formatViews (views video) @ '' '' @ [CHR 0xE2, CHR 0x80, CHR 0xA2] @ '' '' @ timeAgo (daysAgo video) @ ''</p>'' @ newline @
''                </div>'' @ newline @
''            </div>'' @ newline @
''        '')\<rparr>\<close>

text \<open>
  \<^verbatim>\<open>
  function renderVideos() {
      videosGrid.innerHTML = "";
      ... (the list, as above)
      if (list.length === 0) {
          const empty = document.createElement("p");
          empty.className = "muted";
          empty.textContent = "No videos found matching your search.";
          videosGrid.appendChild(empty);
          return;
      }
      const fragment = document.createDocumentFragment();
      list.forEach((v) => fragment.appendChild(createVideoCard(v)));
      videosGrid.appendChild(fragment);
  }
  \<close>
\<close>

definition emptyMessage :: element where
  "emptyMessage =
     \<lparr>tagName = ''p'', className = ''muted'', tabIndex = None, aria_label = None,
      content = TextContent ''No videos found matching your search.''\<rparr>"

definition renderVideos :: "page \<Rightarrow> page" where
  "renderVideos s =
     (let s = s\<lparr>videosGrid := []\<rparr>;
          list = filteredList s
      in if length list = 0 then s\<lparr>videosGrid := videosGrid s @ [emptyMessage]\<rparr>
         else s\<lparr>videosGrid := videosGrid s @ map createVideoCard list\<rparr>)"

text \<open>A child of the grid is a video card when it is an \<open>article\<close> of class \<open>video-card\<close>.\<close>

definition isVideoCard :: "element \<Rightarrow> bool" where
  "isVideoCard e = (tagName e = ''article'' \<and> className e = ''video-card'')"

text \<open>
  The specification's wording of the two filters, to compare the code with: a record
  passes the category filter when the selected category is "All" or is its own, and
  passes the text filter when the query is empty or the trimmed, lowercased query is a
  substring, up to case, of its title, channel or category.
\<close>

definition contains_ci :: "string \<Rightarrow> string \<Rightarrow> bool" where
  "contains_ci s q = sublist (toLowerCase q) (toLowerCase s)"

definition category_passes :: "string \<Rightarrow> video \<Rightarrow> bool" where
  "category_passes C v = (C = ''All'' \<or> category v = C)"

definition text_passes :: "string \<Rightarrow> video \<Rightarrow> bool" where
  "text_passes Q v =
     (Q = [] \<or> (let q = toLowerCase (trim Q) in
        contains_ci (title v) q \<or> contains_ci (channel v) q \<or> contains_ci (category v) q))"

section \<open>Sample data\<close>

text \<open>Two records as \<open>generateVideos\<close> builds them, and a page that shows them.\<close>

definition sampleVideoA :: video where
  "sampleVideoA =
     \<lparr>video_id = ''vid-0-relaxing-lo-fi-beats-7'', title = ''Relaxing Lo-fi Beats 7'',
      channel = ''DailyBeat'', category = ''Music'', views = 1500, daysAgo = 45,
      thumbUrl = ''https://picsum.photos/id/10/480/270'',
      avatarUrl = ''https://i.pravatar.cc/40?img=1'', duration = ''3:07''\<rparr>"

definition sampleVideoB :: video where
  "sampleVideoB =
     \<lparr>video_id = ''vid-1-epic-gameplay-highlights-21'', title = ''Epic Gameplay Highlights 21'',
      channel = ''GameStream'', category = ''Gaming'', views = 2500000, daysAgo = 400,
      thumbUrl = ''https://picsum.photos/id/11/480/270'',
      avatarUrl = ''https://i.pravatar.cc/40?img=2'', duration = ''12:40''\<rparr>"

definition samplePage :: page where
  "samplePage =
     \<lparr>data_theme = None, themeToggle_textContent = [], themeToggle_title = [],
      localStorage = Map.empty, selectedCategory = ''Music'',
      videos = [sampleVideoA, sampleVideoB], searchInput_value = '' BEAT '',
      videosGrid = []\<rparr>"

section \<open>Predicates for the proofs about strings\<close>

text \<open>
  A Unicode scalar value is a code point that is no surrogate; a code point is fixed by
  lowercasing when no mapping changes it.
\<close>

definition scalar_value :: "nat \<Rightarrow> bool" where
  "scalar_value c = (c < 0xD800 \<or> (0xE000 \<le> c \<and> c \<le> 0x10FFFF))"

definition lowercase_fixed :: "nat \<Rightarrow> bool" where
  "lowercase_fixed c = (c \<noteq> 0x3A3 \<and> c \<noteq> 0x130 \<and> Simple_Lowercase_Mapping c = c)"

text \<open>
  Checks that are run once on the table of simple lowercase mappings. \<open>interval_unmapped
  a b p rs\<close> holds when the lookup in \<open>rs\<close> leaves every code point from \<open>a\<close> to \<open>b\<close>
  unchanged (for \<open>p\<close>, every such code point of the parity of \<open>a\<close>); \<open>images_unmapped\<close>
  asks this of the images of every range, and \<open>images_plain\<close> that these images are
  scalar values, are not white space and are neither U+0130 nor U+03A3.
\<close>

fun interval_unmapped ::
  "nat \<Rightarrow> nat \<Rightarrow> bool \<Rightarrow> (nat \<times> nat \<times> nat \<times> nat) list \<Rightarrow> bool" where
  "interval_unmapped a b p [] = True"
| "interval_unmapped a b p ((lo, hi, stride, tlo) # rs) =
     (if hi < a then interval_unmapped a b p rs
      else if b < lo then True
      else if p \<and> stride = 2 \<and> a mod 2 \<noteq> lo mod 2 then interval_unmapped a b p rs
      else False)"

fun images_unmapped ::
  "(nat \<times> nat \<times> nat \<times> nat) list \<Rightarrow> (nat \<times> nat \<times> nat \<times> nat) list \<Rightarrow> bool" where
  "images_unmapped [] table = True"
| "images_unmapped ((lo, hi, stride, tlo) # rs) table =
     (if interval_unmapped tlo (tlo + (hi - lo)) (stride = 2 \<or> lo = hi) table
      then images_unmapped rs table else False)"

definition image_plain :: "nat \<Rightarrow> nat \<Rightarrow> bool" where
  "image_plain a b =
     ((b < 0x130 \<or> 0x130 < a) \<and> (b < 0x3A3 \<or> 0x3A3 < a) \<and>
      (b < 0xD800 \<or> (0xE000 \<le> a \<and> b \<le> 0x10FFFF)) \<and>
      0x20 < a \<and> (b < 0xA0 \<or> 0xA0 < a) \<and> (b < 0x1680 \<or> 0x1680 < a) \<and>
      (b < 0x2000 \<or> 0x205F < a) \<and> (b < 0x3000 \<or> 0x3000 < a) \<and> (b < 0xFEFF \<or> 0xFEFF < a))"

fun images_plain :: "(nat \<times> nat \<times> nat \<times> nat) list \<Rightarrow> bool" where
  "images_plain [] = True"
| "images_plain ((lo, hi, stride, tlo) # rs) =
     (if image_plain tlo (tlo + (hi - lo)) then images_plain rs else False)"

section \<open>Properties of the string functions\<close>

lemma startsWith_iff_prefix: "startsWith s q \<longleftrightarrow> prefix q s"
  by (induction s q rule: startsWith.induct) auto

lemma includes_str_iff_sublist: "includes_str s q \<longleftrightarrow> sublist q s"
proof (induction s)
  case Nil
  show ?case by simp
next
  case (Cons c s)
  show ?case
  proof (cases q)
    case Nil
    then show ?thesis by simp
  next
    case (Cons d q')
    then show ?thesis
      using Cons.IH by (simp add: startsWith_iff_prefix sublist_Cons_right)
  qed
qed

lemma includes_str_empty: "includes_str s []"
  by (simp add: includes_str_iff_sublist)

subsection \<open>Evaluation\<close>

text \<open>
  The rules that evaluate the string functions on a literal. A lookup steps through its
  table without the simplifier visiting the rest of the table at each step.
\<close>

declare StringToCodePoints.simps [simp del]

lemma char_of_nat_eval:
  "char_of (n :: nat) =
     Char (odd n) (odd (n div 2)) (odd (n div 4)) (odd (n div 8)) (odd (n div 16))
       (odd (n div 32)) (odd (n div 64)) (odd (n div 128))"
  by (simp add: char_of_def bit_iff_odd)

lemma Simple_Lowercase_Mapping_in_cong:
  "c = c' \<Longrightarrow> Simple_Lowercase_Mapping_in rs c = Simple_Lowercase_Mapping_in rs c'"
  by simp

lemma in_ranges_cong: "c = c' \<Longrightarrow> in_ranges rs c = in_ranges rs c'"
  by simp

lemma interval_unmapped_cong:
  "a = a' \<Longrightarrow> b = b' \<Longrightarrow> p = p' \<Longrightarrow>
   interval_unmapped a b p rs = interval_unmapped a' b' p' rs"
  by simp

lemma images_unmapped_cong: "images_unmapped rs table = images_unmapped rs table"
  by simp

lemma images_plain_cong: "images_plain rs = images_plain rs"
  by simp

lemmas Simple_Lowercase_Mapping_unfold =
  Simple_Lowercase_Mapping_def [unfolded Simple_Lowercase_Mapping_ranges_def]

lemmas Cased_unfold = Cased_def [unfolded Cased_ranges_def]

lemmas Case_Ignorable_unfold = Case_Ignorable_def [unfolded Case_Ignorable_ranges_def]

lemmas string_eval = StringToCodePoints.simps toLowerCase_def toLowercase_def
  Lowercase_Mapping_def Final_Sigma_def Simple_Lowercase_Mapping_unfold Cased_unfold
  Case_Ignorable_unfold CodePointsToString_def utf8_def char_of_nat_eval continuation_def
  payload_def trim_def isWhiteSpace_def WhiteSpace_def LineTerminator_def

subsection \<open>Encoding and decoding\<close>

lemma of_char_char_of_nat: "n < 256 \<Longrightarrow> of_char (char_of n) = (n :: nat)"
  by simp

lemma three_bytes:
  "c div 0x1000 * 0x1000 + c div 0x40 mod 0x40 * 0x40 + c mod 0x40 = (c :: nat)"
  using mod_mult2_eq [of c "0x40" "0x40"] div_mult_mod_eq [of c "0x1000"] by simp

lemma four_bytes:
  "c div 0x40000 * 0x40000 + c div 0x1000 mod 0x40 * 0x1000 + c div 0x40 mod 0x40 * 0x40 +
   c mod 0x40 = (c :: nat)"
  using mod_mult2_eq [of c "0x40" "0x40"] mod_mult2_eq [of c "0x1000" "0x40"]
    div_mult_mod_eq [of c "0x40000"] by simp

lemma continuation_char_of:
  "n < 0x40 \<Longrightarrow> continuation (char_of (0x80 + n)) \<and> payload (char_of (0x80 + n)) = n"
  by (simp add: continuation_def payload_def of_char_char_of_nat)

lemma StringToCodePoints_utf8:
  assumes "scalar_value c"
  shows "StringToCodePoints (utf8 c @ s) = c # StringToCodePoints s"
proof -
  consider (one) "c < 0x80" | (two) "0x80 \<le> c" "c < 0x800" | (three) "0x800 \<le> c" "c < 0x10000"
    | (four) "0x10000 \<le> c"
    by linarith
  then show ?thesis
  proof cases
    case one
    then show ?thesis
      by (simp add: utf8_def of_char_char_of_nat StringToCodePoints.simps)
  next
    case two
    define b where "b = 0xC0 + c div 0x40"
    have b: "b < 256" "0xC2 \<le> b" "b < 0xE0" "(b - 0xC0) * 0x40 + c mod 0x40 = c"
      using two by (simp_all add: b_def)
    have "utf8 c = [char_of b, char_of (0x80 + c mod 0x40)]"
      using two by (simp add: utf8_def b_def)
    then show ?thesis
      using b by (simp add: of_char_char_of_nat continuation_char_of StringToCodePoints.simps)
  next
    case three
    define b where "b = 0xE0 + c div 0x1000"
    have b: "b < 256" "0xE0 \<le> b" "b < 0xF0"
      "(b - 0xE0) * 0x1000 + c div 0x40 mod 0x40 * 0x40 + c mod 0x40 = c"
      using three by (simp_all add: b_def three_bytes)
    have "utf8 c = [char_of b, char_of (0x80 + c div 0x40 mod 0x40), char_of (0x80 + c mod 0x40)]"
      using three by (simp add: utf8_def b_def)
    moreover have "\<not> (0xD800 \<le> c \<and> c \<le> 0xDFFF)"
      using assms unfolding scalar_value_def by linarith
    ultimately show ?thesis
      using b three by (simp add: of_char_char_of_nat continuation_char_of StringToCodePoints.simps)
  next
    case four
    from assms four have le: "c \<le> 0x10FFFF"
      by (simp add: scalar_value_def)
    define b where "b = 0xF0 + c div 0x40000"
    have b: "b < 256" "0xF0 \<le> b" "b < 0xF5"
      "(b - 0xF0) * 0x40000 + c div 0x1000 mod 0x40 * 0x1000 + c div 0x40 mod 0x40 * 0x40 +
       c mod 0x40 = c"
      using le by (simp_all add: b_def four_bytes)
    have "utf8 c = [char_of b, char_of (0x80 + c div 0x1000 mod 0x40),
        char_of (0x80 + c div 0x40 mod 0x40), char_of (0x80 + c mod 0x40)]"
      using four by (simp add: utf8_def b_def)
    then show ?thesis
      using b four le by (simp add: of_char_char_of_nat continuation_char_of StringToCodePoints.simps)
  qed
qed

lemma StringToCodePoints_CodePointsToString:
  "list_all scalar_value cps \<Longrightarrow> StringToCodePoints (CodePointsToString cps) = cps"
  by (induction cps)
    (simp_all add: CodePointsToString_def StringToCodePoints_utf8 StringToCodePoints.simps)

lemma payload_less: "continuation c \<Longrightarrow> payload c < 0x40"
  by (auto simp add: continuation_def payload_def)

lemma StringToCodePoints_scalar: "list_all scalar_value (StringToCodePoints s)"
proof (induction s rule: length_induct)
  case (1 s)
  show ?case
  proof (cases s)
    case Nil
    then show ?thesis by (simp add: StringToCodePoints.simps)
  next
    case (Cons c s')
    have IH: "list_all scalar_value (StringToCodePoints t)" if "length t \<le> length s'" for t
      using 1 that Cons by simp
    have one: "scalar_value b" if "b < 0x80" for b
      using that unfolding scalar_value_def by linarith
    have two: "scalar_value ((b - 0xC0) * 0x40 + payload c1)" if "b < 0xE0" "continuation c1"
      for b c1
      using that payload_less [of c1] unfolding scalar_value_def by linarith
    have three: "scalar_value cp" if "cp < 0x10000" "\<not> (0xD800 \<le> cp \<and> cp \<le> 0xDFFF)" for cp
      using that unfolding scalar_value_def by linarith
    have three': "(b - 0xE0) * 0x1000 + payload c1 * 0x40 + payload c2 < 0x10000"
      if "b < 0xF0" "continuation c1" "continuation c2" for b c1 c2
      using that payload_less [of c1] payload_less [of c2] by linarith
    have four: "scalar_value cp" if "cp \<le> 0x10FFFF" "0x10000 \<le> cp" for cp
      using that unfolding scalar_value_def by linarith
    have bad: "scalar_value 0xFFFD"
      by (simp add: scalar_value_def)
    show ?thesis
      unfolding Cons
      by (subst StringToCodePoints.simps)
        (simp add: Let_def IH one two three three' four bad
           split: list.splits)
  qed
qed

subsection \<open>The table of simple lowercase mappings\<close>

text \<open>
  A code point either has no simple lowercase mapping, or its image has none, is a scalar
  value, is not white space, and is neither U+0130 nor U+03A3.
\<close>

lemma table_images_unmapped:
  "images_unmapped Simple_Lowercase_Mapping_ranges Simple_Lowercase_Mapping_ranges"
  unfolding Simple_Lowercase_Mapping_ranges_def
  by (simp cong: interval_unmapped_cong images_unmapped_cong)

lemma table_images_plain: "images_plain Simple_Lowercase_Mapping_ranges"
  unfolding Simple_Lowercase_Mapping_ranges_def
  by (simp add: image_plain_def cong: images_plain_cong)

lemma Simple_Lowercase_Mapping_in_cases:
  "Simple_Lowercase_Mapping_in rs c = c \<or>
   (\<exists>lo hi stride tlo. (lo, hi, stride, tlo) \<in> set rs \<and> lo \<le> c \<and> c \<le> hi \<and>
      (c - lo) mod stride = 0 \<and> Simple_Lowercase_Mapping_in rs c = tlo + (c - lo))"
proof (induction rs c rule: Simple_Lowercase_Mapping_in.induct)
  case (1 c)
  show ?case by simp
next
  case (2 lo hi stride tlo rs c)
  show ?case
  proof (cases "c < lo")
    case True
    then show ?thesis by simp
  next
    case False
    note nlt = this
    show ?thesis
    proof (cases "c \<le> hi \<and> (c - lo) mod stride = 0")
      case True
      with nlt have "(lo, hi, stride, tlo) \<in> set ((lo, hi, stride, tlo) # rs) \<and> lo \<le> c \<and> c \<le> hi \<and>
          (c - lo) mod stride = 0 \<and>
          Simple_Lowercase_Mapping_in ((lo, hi, stride, tlo) # rs) c = tlo + (c - lo)"
        by simp
      then show ?thesis
        by (intro disjI2 exI)
    next
      case False
      with nlt have eq: "Simple_Lowercase_Mapping_in ((lo, hi, stride, tlo) # rs) c =
          Simple_Lowercase_Mapping_in rs c"
        by auto
      from 2 [OF nlt False] show ?thesis
        unfolding eq by (metis list.set_intros(2))
    qed
  qed
qed

lemma interval_unmapped_sound:
  "interval_unmapped a b p rs \<Longrightarrow> a \<le> t \<Longrightarrow> t \<le> b \<Longrightarrow> (p \<Longrightarrow> t mod 2 = a mod 2) \<Longrightarrow>
   Simple_Lowercase_Mapping_in rs t = t"
proof (induction a b p rs rule: interval_unmapped.induct)
  case (1 a b p)
  show ?case by simp
next
  case (2 a b p lo hi stride tlo rs)
  note check = "2.prems"(1) and t = "2.prems"(2,3) and parity = "2.prems"(4)
  show ?case
  proof (cases "t < lo")
    case True
    then show ?thesis by simp
  next
    case False
    note lo = this
    show ?thesis
    proof (cases "hi < a")
      case True
      with check have "interval_unmapped a b p rs"
        by simp
      with True have "Simple_Lowercase_Mapping_in rs t = t"
        using t parity by (rule "2.IH"(1))
      moreover from True t have "\<not> t \<le> hi"
        by simp
      ultimately show ?thesis
        using lo by simp
    next
      case False
      moreover from lo t have after: "\<not> b < lo"
        by simp
      ultimately have par: "p \<and> stride = 2 \<and> a mod 2 \<noteq> lo mod 2"
        and rest: "interval_unmapped a b p rs"
        using check by (simp_all split: if_splits)
      from False after par rest have "Simple_Lowercase_Mapping_in rs t = t"
        using t parity by (rule "2.IH"(2))
      moreover from par parity have "t mod 2 \<noteq> lo mod 2"
        by simp
      with lo have "(t - lo) mod 2 \<noteq> 0"
        by presburger
      ultimately show ?thesis
        using lo par by simp
    qed
  qed
qed

lemma images_unmapped_sound:
  "images_unmapped rs table \<Longrightarrow> (lo, hi, stride, tlo) \<in> set rs \<Longrightarrow>
   interval_unmapped tlo (tlo + (hi - lo)) (stride = 2 \<or> lo = hi) table"
proof (induction rs table rule: images_unmapped.induct)
  case (1 table)
  then show ?case by simp
next
  case (2 lo' hi' stride' tlo' rs table)
  from "2.prems"(1)
  have here: "interval_unmapped tlo' (tlo' + (hi' - lo')) (stride' = 2 \<or> lo' = hi') table"
    and rest: "images_unmapped rs table"
    by (simp_all split: if_splits)
  show ?case
  proof (cases "(lo, hi, stride, tlo) = (lo', hi', stride', tlo')")
    case True
    with here show ?thesis by simp
  next
    case False
    with "2.prems"(2) have "(lo, hi, stride, tlo) \<in> set rs"
      by auto
    with here rest show ?thesis
      by (rule "2.IH")
  qed
qed

lemma isWhiteSpace_range:
  "isWhiteSpace c \<Longrightarrow>
   c \<le> 0x20 \<or> c = 0xA0 \<or> c = 0x1680 \<or> (0x2000 \<le> c \<and> c \<le> 0x205F) \<or> c = 0x3000 \<or> c = 0xFEFF"
  by (auto simp add: isWhiteSpace_def WhiteSpace_def LineTerminator_def)

lemma images_plain_sound:
  "images_plain rs \<Longrightarrow> (lo, hi, stride, tlo) \<in> set rs \<Longrightarrow> tlo \<le> t \<Longrightarrow> t \<le> tlo + (hi - lo) \<Longrightarrow>
   t \<noteq> 0x130 \<and> t \<noteq> 0x3A3 \<and> scalar_value t \<and> \<not> isWhiteSpace t"
proof (induction rs rule: images_plain.induct)
  case 1
  then show ?case by simp
next
  case (2 lo' hi' stride' tlo' rs)
  define thi where "thi = tlo' + (hi' - lo')"
  from "2.prems"(1) have plain: "image_plain tlo' (tlo' + (hi' - lo'))" and rest: "images_plain rs"
    by (simp_all split: if_splits)
  from plain
  have here: "(thi < 0x130 \<or> 0x130 < tlo') \<and> (thi < 0x3A3 \<or> 0x3A3 < tlo') \<and>
      (thi < 0xD800 \<or> (0xE000 \<le> tlo' \<and> thi \<le> 0x10FFFF))"
    and space: "0x20 < tlo' \<and> (thi < 0xA0 \<or> 0xA0 < tlo') \<and> (thi < 0x1680 \<or> 0x1680 < tlo') \<and>
      (thi < 0x2000 \<or> 0x205F < tlo') \<and> (thi < 0x3000 \<or> 0x3000 < tlo') \<and>
      (thi < 0xFEFF \<or> 0xFEFF < tlo')"
    by (simp_all add: image_plain_def thi_def)
  show ?case
  proof (cases "(lo, hi, stride, tlo) = (lo', hi', stride', tlo')")
    case True
    then have t: "tlo' \<le> t" "t \<le> thi"
      using "2.prems" by (simp_all add: thi_def)
    with here have "t \<noteq> 0x130 \<and> t \<noteq> 0x3A3 \<and> scalar_value t"
      unfolding scalar_value_def by linarith
    moreover have "\<not> isWhiteSpace t"
    proof
      assume "isWhiteSpace t"
      then have "t \<le> 0x20 \<or> t = 0xA0 \<or> t = 0x1680 \<or> (0x2000 \<le> t \<and> t \<le> 0x205F) \<or> t = 0x3000 \<or>
          t = 0xFEFF"
        by (rule isWhiteSpace_range)
      with t space show False
        by linarith
    qed
    ultimately show ?thesis
      by simp
  next
    case False
    with "2.prems"(2) have "(lo, hi, stride, tlo) \<in> set rs"
      by auto
    with plain rest show ?thesis
      using "2.prems"(3,4) by (rule "2.IH")
  qed
qed

lemma even_offset: "d mod 2 = 0 \<Longrightarrow> (tlo + d) mod 2 = tlo mod (2 :: nat)"
  by presburger

lemma image_parity:
  assumes "stride = 2 \<or> lo = hi" and "lo \<le> c" and "c \<le> hi" and "(c - lo) mod stride = 0"
  shows "(tlo + (c - lo)) mod 2 = tlo mod (2 :: nat)"
proof -
  have "(c - lo) mod 2 = 0"
  proof (cases "stride = 2")
    case True
    with assms(4) show ?thesis by simp
  next
    case False
    with assms have "c = lo" by simp
    then show ?thesis by simp
  qed
  then show ?thesis
    by (rule even_offset)
qed

lemma Simple_Lowercase_Mapping_cases:
  "Simple_Lowercase_Mapping c = c \<or>
   (Simple_Lowercase_Mapping c \<noteq> 0x130 \<and> Simple_Lowercase_Mapping c \<noteq> 0x3A3 \<and>
    scalar_value (Simple_Lowercase_Mapping c) \<and> \<not> isWhiteSpace (Simple_Lowercase_Mapping c) \<and>
    Simple_Lowercase_Mapping (Simple_Lowercase_Mapping c) = Simple_Lowercase_Mapping c)"
proof (cases "Simple_Lowercase_Mapping c = c")
  case True
  then show ?thesis by simp
next
  case False
  with Simple_Lowercase_Mapping_in_cases [of Simple_Lowercase_Mapping_ranges c]
  have "\<exists>lo hi stride tlo. (lo, hi, stride, tlo) \<in> set Simple_Lowercase_Mapping_ranges \<and>
      lo \<le> c \<and> c \<le> hi \<and> (c - lo) mod stride = 0 \<and>
      Simple_Lowercase_Mapping c = tlo + (c - lo)"
    by (simp add: Simple_Lowercase_Mapping_def)
  then obtain lo hi stride tlo where r: "(lo, hi, stride, tlo) \<in> set Simple_Lowercase_Mapping_ranges"
    and c: "lo \<le> c" "c \<le> hi" "(c - lo) mod stride = 0"
    and t: "Simple_Lowercase_Mapping c = tlo + (c - lo)"
    by (elim exE conjE)
  define t' where "t' = tlo + (c - lo)"
  have bounds: "tlo \<le> t'" "t' \<le> tlo + (hi - lo)"
    using c by (simp_all add: t'_def)
  have parity: "t' mod 2 = tlo mod 2" if "stride = 2 \<or> lo = hi"
    unfolding t'_def using that c by (rule image_parity)
  have "Simple_Lowercase_Mapping_in Simple_Lowercase_Mapping_ranges t' = t'"
    using images_unmapped_sound [OF table_images_unmapped r] bounds parity
    by (rule interval_unmapped_sound)
  then have "Simple_Lowercase_Mapping t' = t'"
    by (simp only: Simple_Lowercase_Mapping_def)
  moreover have "t' \<noteq> 0x130 \<and> t' \<noteq> 0x3A3 \<and> scalar_value t' \<and> \<not> isWhiteSpace t'"
    using table_images_plain r bounds by (rule images_plain_sound)
  moreover have "Simple_Lowercase_Mapping c = t'"
    by (simp only: t t'_def)
  ultimately show ?thesis
    by simp
qed

subsection \<open>Lowercasing twice\<close>

lemma lowercase_fixed_specials:
  "lowercase_fixed 0x3C2 \<and> lowercase_fixed 0x3C3 \<and> lowercase_fixed 0x69 \<and> lowercase_fixed 0x307"
  by (simp add: lowercase_fixed_def Simple_Lowercase_Mapping_unfold
      cong: Simple_Lowercase_Mapping_in_cong)

lemma Lowercase_Mapping_fixed: "list_all lowercase_fixed (Lowercase_Mapping before c after)"
proof -
  have "lowercase_fixed (Simple_Lowercase_Mapping c)" if "c \<noteq> 0x3A3" "c \<noteq> 0x130"
    using Simple_Lowercase_Mapping_cases [of c] that by (auto simp add: lowercase_fixed_def)
  then show ?thesis
    using lowercase_fixed_specials by (simp add: Lowercase_Mapping_def)
qed

lemma Lowercase_Mapping_scalar:
  "scalar_value c \<Longrightarrow> list_all scalar_value (Lowercase_Mapping before c after)"
proof -
  assume "scalar_value c"
  with Simple_Lowercase_Mapping_cases [of c] have "scalar_value (Simple_Lowercase_Mapping c)"
    by auto
  moreover have "scalar_value 0x3C2 \<and> scalar_value 0x3C3 \<and> scalar_value 0x69 \<and> scalar_value 0x307"
    by (simp add: scalar_value_def)
  ultimately show ?thesis
    by (simp add: Lowercase_Mapping_def)
qed

lemma Lowercase_Mapping_of_fixed: "lowercase_fixed c \<Longrightarrow> Lowercase_Mapping before c after = [c]"
  by (simp add: Lowercase_Mapping_def lowercase_fixed_def)

lemma toLowercase_from_fixed: "list_all lowercase_fixed (toLowercase_from before cps)"
  by (induction cps arbitrary: before) (simp_all add: Lowercase_Mapping_fixed)

lemma toLowercase_from_scalar:
  "list_all scalar_value cps \<Longrightarrow> list_all scalar_value (toLowercase_from before cps)"
  by (induction cps arbitrary: before) (simp_all add: Lowercase_Mapping_scalar)

lemma toLowercase_from_of_fixed:
  "list_all lowercase_fixed cps \<Longrightarrow> toLowercase_from before cps = cps"
  by (induction cps arbitrary: before) (simp_all add: Lowercase_Mapping_of_fixed)

lemma isWhiteSpace_fixed: "isWhiteSpace c \<Longrightarrow> lowercase_fixed c \<and> scalar_value c"
proof -
  have "\<forall>c \<in> set [0x09, 0x0B, 0x0C, 0xFEFF, 0x20, 0xA0, 0x1680, 0x2000, 0x2001, 0x2002, 0x2003,
      0x2004, 0x2005, 0x2006, 0x2007, 0x2008, 0x2009, 0x200A, 0x202F, 0x205F, 0x3000, 0x0A, 0x0D,
      0x2028, 0x2029]. lowercase_fixed c \<and> scalar_value c"
    by (simp add: lowercase_fixed_def scalar_value_def Simple_Lowercase_Mapping_unfold
        cong: Simple_Lowercase_Mapping_in_cong)
  moreover assume "isWhiteSpace c"
  ultimately show ?thesis
    unfolding isWhiteSpace_def WhiteSpace_def LineTerminator_def by auto
qed

lemma list_all_trimmed:
  "list_all P xs \<Longrightarrow> list_all P (rev (dropWhile Q (rev (dropWhile Q xs))))"
  unfolding list_all_iff by (auto dest!: set_dropWhileD)

lemma trim_toLowerCase_whitespace:
  assumes "list_all isWhiteSpace (StringToCodePoints s)"
  shows "trim (toLowerCase s) = []"
proof -
  define W where "W = StringToCodePoints s"
  from assms have W: "list_all lowercase_fixed W" "list_all scalar_value W"
    unfolding W_def list_all_iff using isWhiteSpace_fixed by blast+
  have "toLowerCase s = CodePointsToString W"
    unfolding toLowerCase_def toLowercase_def W_def [symmetric]
    by (simp add: toLowercase_from_of_fixed W)
  then have "trim (toLowerCase s) =
      CodePointsToString (rev (dropWhile isWhiteSpace (rev (dropWhile isWhiteSpace W))))"
    by (simp add: trim_def StringToCodePoints_CodePointsToString W)
  moreover have "dropWhile isWhiteSpace W = []"
    using assms unfolding W_def list_all_iff by simp
  then have "rev (dropWhile isWhiteSpace (rev (dropWhile isWhiteSpace W))) = []"
    by (simp only: rev.simps dropWhile.simps)
  ultimately have "trim (toLowerCase s) = CodePointsToString []"
    by (simp only:)
  then show ?thesis
    by (simp add: CodePointsToString_def)
qed

subsection \<open>Lowercasing and trimming\<close>

text \<open>
  White space has no lowercase mapping, is the image of none, and is not Cased, so that
  it neither changes nor changes the context of a sigma: trimming before lowercasing and
  lowercasing before trimming give the same string.
\<close>

lemma isWhiteSpace_not_Cased: "isWhiteSpace c \<Longrightarrow> \<not> Cased c"
proof -
  have "\<forall>c \<in> set [0x09, 0x0B, 0x0C, 0xFEFF, 0x20, 0xA0, 0x1680, 0x2000, 0x2001, 0x2002, 0x2003,
      0x2004, 0x2005, 0x2006, 0x2007, 0x2008, 0x2009, 0x200A, 0x202F, 0x205F, 0x3000, 0x0A, 0x0D,
      0x2028, 0x2029]. \<not> Cased c"
    by (simp add: Cased_unfold cong: in_ranges_cong)
  moreover assume "isWhiteSpace c"
  ultimately show ?thesis
    unfolding isWhiteSpace_def WhiteSpace_def LineTerminator_def by auto
qed

lemma Lowercase_Mapping_isWhiteSpace:
  "isWhiteSpace c \<Longrightarrow> Lowercase_Mapping before c after = [c]"
  using isWhiteSpace_fixed [of c] by (simp add: Lowercase_Mapping_of_fixed)

lemma Lowercase_Mapping_not_isWhiteSpace:
  assumes "\<not> isWhiteSpace c"
  shows "Lowercase_Mapping before c after \<noteq> [] \<and>
         list_all (\<lambda>x. \<not> isWhiteSpace x) (Lowercase_Mapping before c after)"
proof -
  have "\<not> isWhiteSpace 0x3C2 \<and> \<not> isWhiteSpace 0x3C3 \<and> \<not> isWhiteSpace 0x69 \<and> \<not> isWhiteSpace 0x307"
    by (simp add: isWhiteSpace_def WhiteSpace_def LineTerminator_def)
  moreover from assms Simple_Lowercase_Mapping_cases [of c]
  have "\<not> isWhiteSpace (Simple_Lowercase_Mapping c)"
    by auto
  ultimately show ?thesis
    by (simp add: Lowercase_Mapping_def)
qed

lemma first_cased_append:
  assumes "list_all (\<lambda>v. \<not> Cased v) V"
  shows "(case dropWhile Case_Ignorable (P @ V) of [] \<Rightarrow> False | c # _ \<Rightarrow> Cased c) =
         (case dropWhile Case_Ignorable P of [] \<Rightarrow> False | c # _ \<Rightarrow> Cased c)"
proof (cases "dropWhile Case_Ignorable P")
  case Nil
  then have "\<And>x. x \<in> set P \<Longrightarrow> Case_Ignorable x"
    by simp
  then have eq: "dropWhile Case_Ignorable (P @ V) = dropWhile Case_Ignorable V"
    by (rule dropWhile_append2)
  have "(case dropWhile Case_Ignorable V of [] \<Rightarrow> False | c # _ \<Rightarrow> Cased c) = False"
  proof (cases "dropWhile Case_Ignorable V")
    case Nil
    show ?thesis by (simp only: Nil list.case)
  next
    case (Cons c r)
    then have "c \<in> set (dropWhile Case_Ignorable V)"
      by simp
    then have "c \<in> set V"
      by (rule set_dropWhileD)
    with assms have "\<not> Cased c"
      by (simp add: list_all_iff)
    then show ?thesis
      by (simp only: Cons list.case)
  qed
  then show ?thesis
    by (simp only: eq Nil list.case)
next
  case (Cons c r)
  then have "c \<in> set (dropWhile Case_Ignorable P)" and "\<not> Case_Ignorable c"
    using hd_dropWhile [of Case_Ignorable P] by simp_all
  then have "c \<in> set P"
    by (blast dest: set_dropWhileD)
  then have "dropWhile Case_Ignorable (P @ V) = dropWhile Case_Ignorable P @ V"
    using \<open>\<not> Case_Ignorable c\<close> by (rule dropWhile_append1)
  with Cons show ?thesis
    by simp
qed

lemma Lowercase_Mapping_append:
  "list_all (\<lambda>v. \<not> Cased v) V \<Longrightarrow> list_all (\<lambda>v. \<not> Cased v) V' \<Longrightarrow>
   Lowercase_Mapping (B @ V) c (A @ V') = Lowercase_Mapping B c A"
  by (simp add: Lowercase_Mapping_def Final_Sigma_def first_cased_append)

lemma toLowercase_from_append:
  assumes "list_all isWhiteSpace V'" and "list_all (\<lambda>v. \<not> Cased v) V"
  shows "toLowercase_from (B @ V) (X @ V') = toLowercase_from B X @ V'"
proof (induction X arbitrary: B)
  case Nil
  from assms(1) have "list_all lowercase_fixed V'"
    unfolding list_all_iff using isWhiteSpace_fixed by blast
  then show ?case
    by (simp add: toLowercase_from_of_fixed)
next
  case (Cons x X)
  from assms(1) have "list_all (\<lambda>v. \<not> Cased v) V'"
    unfolding list_all_iff using isWhiteSpace_not_Cased by blast
  with assms(2) have "Lowercase_Mapping (B @ V) x (X @ V') = Lowercase_Mapping B x X"
    by (rule Lowercase_Mapping_append)
  moreover have "toLowercase_from ((x # B) @ V) (X @ V') = toLowercase_from (x # B) X @ V'"
    by (rule Cons.IH)
  ultimately show ?case
    by simp
qed

lemma toLowercase_from_leading:
  "list_all isWhiteSpace W \<Longrightarrow> toLowercase_from B (W @ Y) = W @ toLowercase_from (rev W @ B) Y"
  by (induction W arbitrary: B) (simp_all add: Lowercase_Mapping_isWhiteSpace)

lemma toLowercase_dropWhile:
  "dropWhile isWhiteSpace (toLowercase X) = toLowercase (dropWhile isWhiteSpace X)"
proof -
  define W where "W = takeWhile isWhiteSpace X"
  define Y where "Y = dropWhile isWhiteSpace X"
  have X: "X = W @ Y"
    by (simp add: W_def Y_def)
  have W: "list_all isWhiteSpace W"
    unfolding W_def list_all_iff by (blast dest: set_takeWhileD)
  then have uncased: "list_all (\<lambda>v. \<not> Cased v) (rev W)"
    unfolding list_all_iff using isWhiteSpace_not_Cased by simp
  have "toLowercase_from ([] @ rev W) (Y @ []) = toLowercase_from [] Y @ []"
    using _ uncased by (rule toLowercase_from_append) simp
  with toLowercase_from_leading [OF W, of "[]" Y] have low: "toLowercase X = W @ toLowercase Y"
    by (simp add: toLowercase_def X)
  have "dropWhile isWhiteSpace (toLowercase Y) = toLowercase Y"
  proof (cases Y)
    case Nil
    then show ?thesis by (simp add: toLowercase_def)
  next
    case (Cons y Y')
    then have "\<not> isWhiteSpace y"
      using hd_dropWhile [of isWhiteSpace X] by (simp add: Y_def)
    then obtain m ms where "Lowercase_Mapping [] y Y' = m # ms" and "\<not> isWhiteSpace m"
      using Lowercase_Mapping_not_isWhiteSpace [of y "[]" Y']
      by (cases "Lowercase_Mapping [] y Y'") simp_all
    then show ?thesis
      by (simp add: toLowercase_def Cons)
  qed
  with W show ?thesis
    by (simp add: low list_all_iff Y_def [symmetric])
qed

lemma toLowercase_from_last:
  "X \<noteq> [] \<Longrightarrow> \<not> isWhiteSpace (last X) \<Longrightarrow>
   toLowercase_from B X \<noteq> [] \<and> \<not> isWhiteSpace (last (toLowercase_from B X))"
proof (induction X arbitrary: B)
  case Nil
  then show ?case by simp
next
  case (Cons x X)
  show ?case
  proof (cases "X = []")
    case True
    with Cons.prems have "\<not> isWhiteSpace x"
      by simp
    then have "Lowercase_Mapping B x [] \<noteq> []"
      and "list_all (\<lambda>x. \<not> isWhiteSpace x) (Lowercase_Mapping B x [])"
      using Lowercase_Mapping_not_isWhiteSpace [of x B "[]"] by simp_all
    then have "\<not> isWhiteSpace (last (Lowercase_Mapping B x []))"
      unfolding list_all_iff using last_in_set by blast
    with \<open>Lowercase_Mapping B x [] \<noteq> []\<close> True show ?thesis
      by simp
  next
    case False
    with Cons.prems have "\<not> isWhiteSpace (last X)"
      by simp
    with False have "toLowercase_from (x # B) X \<noteq> [] \<and>
        \<not> isWhiteSpace (last (toLowercase_from (x # B) X))"
      by (rule Cons.IH)
    then show ?thesis
      by simp
  qed
qed

lemma toLowercase_trailing:
  "rev (dropWhile isWhiteSpace (rev (toLowercase Z))) =
   toLowercase (rev (dropWhile isWhiteSpace (rev Z)))"
proof -
  define V where "V = rev (takeWhile isWhiteSpace (rev Z))"
  define M where "M = rev (dropWhile isWhiteSpace (rev Z))"
  have "rev Z = rev V @ rev M"
    by (simp add: V_def M_def)
  then have "rev Z = rev (M @ V)"
    by simp
  then have Z: "Z = M @ V"
    by (simp only: rev_is_rev_conv)
  have V: "list_all isWhiteSpace V"
    unfolding V_def list_all_iff by (auto dest: set_takeWhileD)
  have "toLowercase_from ([] @ []) (M @ V) = toLowercase_from [] M @ V"
    using V by (rule toLowercase_from_append) simp
  then have low: "toLowercase Z = toLowercase M @ V"
    by (simp add: toLowercase_def Z)
  have "dropWhile isWhiteSpace (rev (toLowercase M)) = rev (toLowercase M)"
  proof (cases "M = []")
    case True
    then show ?thesis by (simp add: toLowercase_def)
  next
    case False
    then have "dropWhile isWhiteSpace (rev Z) \<noteq> []"
      by (simp add: M_def)
    then have "\<not> isWhiteSpace (hd (dropWhile isWhiteSpace (rev Z)))"
      by (rule hd_dropWhile)
    with False have "\<not> isWhiteSpace (last M)"
      by (simp add: M_def last_rev)
    with False have "toLowercase M \<noteq> []" and "\<not> isWhiteSpace (last (toLowercase M))"
      using toLowercase_from_last [of M "[]"] by (simp_all add: toLowercase_def)
    then show ?thesis
      by (cases "toLowercase M" rule: rev_cases) simp_all
  qed
  moreover have "dropWhile isWhiteSpace (rev V @ rev (toLowercase M)) =
      dropWhile isWhiteSpace (rev (toLowercase M))"
    by (rule dropWhile_append2) (use V in \<open>simp add: list_all_iff\<close>)
  ultimately have "rev (dropWhile isWhiteSpace (rev (toLowercase Z))) = toLowercase M"
    by (simp add: low)
  then show ?thesis
    by (simp only: M_def)
qed

lemma toLowercase_trimmed:
  "rev (dropWhile isWhiteSpace (rev (dropWhile isWhiteSpace (toLowercase X)))) =
   toLowercase (rev (dropWhile isWhiteSpace (rev (dropWhile isWhiteSpace X))))"
  by (simp only: toLowercase_dropWhile toLowercase_trailing)

lemma trim_toLowerCase: "trim (toLowerCase s) = toLowerCase (trim s)"
proof -
  define X where "X = StringToCodePoints s"
  have X: "list_all scalar_value X"
    unfolding X_def by (rule StringToCodePoints_scalar)
  then have "list_all scalar_value (toLowercase X)"
    unfolding toLowercase_def by (rule toLowercase_from_scalar)
  then have "trim (toLowerCase s) =
      CodePointsToString
        (rev (dropWhile isWhiteSpace (rev (dropWhile isWhiteSpace (toLowercase X)))))"
    by (simp add: trim_def toLowerCase_def StringToCodePoints_CodePointsToString X_def)
  moreover from X
  have "list_all scalar_value (rev (dropWhile isWhiteSpace (rev (dropWhile isWhiteSpace X))))"
    by (rule list_all_trimmed)
  then have "toLowerCase (trim s) =
      CodePointsToString
        (toLowercase (rev (dropWhile isWhiteSpace (rev (dropWhile isWhiteSpace X)))))"
    unfolding trim_def toLowerCase_def X_def [symmetric]
    by (simp only: StringToCodePoints_CodePointsToString)
  ultimately show ?thesis
    by (simp only: toLowercase_trimmed)
qed

lemma toLowerCase_idem: "toLowerCase (toLowerCase s) = toLowerCase s"
proof -
  define L where "L = toLowercase (StringToCodePoints s)"
  have L: "list_all scalar_value L" "list_all lowercase_fixed L"
    unfolding L_def toLowercase_def
    by (simp_all add: toLowercase_from_fixed toLowercase_from_scalar StringToCodePoints_scalar)
  then show ?thesis
    unfolding toLowerCase_def L_def [symmetric]
    by (simp add: StringToCodePoints_CodePointsToString toLowercase_def toLowercase_from_of_fixed)
qed

lemma toLowerCase_examples:
  "toLowerCase ''Relaxing Lo-fi Beats 7'' = ''relaxing lo-fi beats 7'' \<and>
   toLowerCase [CHR 0xC3, CHR 0x89] = [CHR 0xC3, CHR 0xA9] \<and>
   toLowerCase [CHR 0xE2, CHR 0x84, CHR 0xAA] = ''k'' \<and>
   toLowerCase [CHR 0xC4, CHR 0xB0] = [CHR 0x69, CHR 0xCC, CHR 0x87] \<and>
   toLowerCase [CHR 0xCE, CHR 0x91, CHR 0xCE, CHR 0xA3, CHR 0x20, CHR 0xCE, CHR 0xA3] =
     [CHR 0xCE, CHR 0xB1, CHR 0xCF, CHR 0x82, CHR 0x20, CHR 0xCF, CHR 0x83] \<and>
   toLowerCase [CHR 0xF0, CHR 0x90, CHR 0x90, CHR 0x80] = [CHR 0xF0, CHR 0x90, CHR 0x90, CHR 0xA8] \<and>
   trim ([CHR 0xC2, CHR 0xA0] @ ''beat'' @ [CHR 0xE3, CHR 0x80, CHR 0x80, CHR 0x09]) = ''beat''"
  by (simp add: string_eval Let_def cong: Simple_Lowercase_Mapping_in_cong in_ranges_cong)

section \<open>Properties of the number functions\<close>

text \<open>
  \<open>Math.floor(a / b)\<close> is the integer quotient for every \<open>a\<close> below \<open>2^53\<close>: the rounding
  of the quotient to a Number never reaches the next integer.
\<close>

lemma scale_up_ge: "0 < a \<Longrightarrow> 2 ^ 52 * b \<le> a * 2 ^ scale_up a b k"
proof (induction a b k rule: scale_up.induct)
  case (1 a b k)
  show ?case
  proof (cases "2 ^ 52 * b \<le> a * 2 ^ k")
    case True
    then show ?thesis by (subst scale_up.simps) simp
  next
    case False
    with "1.prems" have "2 ^ 52 * b \<le> a * 2 ^ scale_up a b (Suc k)"
      by (intro "1.IH") simp_all
    with False "1.prems" show ?thesis by (subst scale_up.simps) simp
  qed
qed

lemma scale_down_0: "a < 2 ^ 53 * b \<Longrightarrow> scale_down a b 0 = 0"
  by (subst scale_down.simps) simp

lemma round_nearest_even_cases:
  "round_nearest_even T b = T div b \<or>
   (round_nearest_even T b = T div b + 1 \<and> b \<le> 2 * (T mod b))"
  by (simp add: round_nearest_even_def Let_def)

lemma round_floor_div:
  fixes a b K :: nat
  assumes b: "0 < b" and K: "0 < K" and a53: "a < 2 ^ 53" and big: "2 ^ 52 * b \<le> a * K"
  shows "round_nearest_even (a * K) b div K = a div b"
proof -
  define Q where "Q = a div b"
  define T where "T = a * K"
  define q where "q = T div b"
  define r where "r = T mod b"
  define m where "m = round_nearest_even T b"
  define P where "P = (Q + 1) * K * b"
  have a_lo: "Q * b \<le> a"
    unfolding Q_def by simp
  have "a = Q * b + a mod b"
    unfolding Q_def by simp
  moreover have "a mod b < b"
    using b by simp
  ultimately have "a + 1 \<le> Q * b + b" by linarith
  then have "a + 1 \<le> (Q + 1) * b" by simp
  then have "(a + 1) * K \<le> (Q + 1) * b * K" by (rule mult_le_mono1)
  then have T_hi: "T + K \<le> P"
    unfolding T_def P_def by (simp add: algebra_simps)
  from a_lo have "Q * b * K \<le> a * K" by (rule mult_le_mono1)
  then have T_lo: "Q * K * b \<le> T"
    unfolding T_def by (simp add: algebra_simps)
  have q_lo: "Q * K \<le> q"
    unfolding q_def using T_lo b by (simp add: less_eq_div_iff_mult_less_eq)
  have "T < P" using T_hi K by simp
  then have q_hi: "q < (Q + 1) * K"
    unfolding q_def P_def using b by (simp add: div_less_iff_less_mult)
  have T_eq: "T = q * b + r"
    unfolding q_def r_def by simp
  have m_cases: "m = q \<or> (m = q + 1 \<and> b \<le> 2 * r)"
    unfolding m_def q_def r_def by (rule round_nearest_even_cases)
  have m_hi: "m < (Q + 1) * K"
  proof (rule ccontr)
    assume "\<not> m < (Q + 1) * K"
    with m_cases q_hi have up: "q + 1 = (Q + 1) * K" and half: "b \<le> 2 * r"
      by auto
    from up have "(q + 1) * b = P" by (simp add: P_def)
    then have "q * b + b = P" by (simp add: algebra_simps)
    with T_eq half have "2 * P \<le> 2 * T + b" by simp
    with T_hi have "2 * K \<le> b" by simp
    then have "2 ^ 52 * (2 * K) \<le> 2 ^ 52 * b" by (rule mult_le_mono2)
    then have "2 ^ 53 * K \<le> 2 ^ 52 * b" by simp
    moreover from a53 K have "a * K < 2 ^ 53 * K" by (rule mult_less_mono1)
    ultimately show False using big by linarith
  qed
  from m_cases q_lo have m_lo: "Q * K \<le> m" by auto
  have "m div K = Q"
    using m_lo m_hi K by (intro div_nat_eqI) (simp_all add: algebra_simps)
  then show ?thesis
    by (simp add: m_def T_def Q_def)
qed

lemma to_double_floor:
  assumes "0 < b" and "a < 2 ^ 53"
  shows "fst (to_double a b) div snd (to_double a b) = a div b"
proof (cases "a = 0")
  case True
  then show ?thesis by (simp add: to_double_def)
next
  case False
  have "(2::nat) ^ 53 * 1 \<le> 2 ^ 53 * b"
    using assms(1) by (intro mult_le_mono2) simp
  with assms(2) have "a < 2 ^ 53 * b" by simp
  then have j: "scale_down a b 0 = 0" by (rule scale_down_0)
  from False have "2 ^ 52 * b \<le> a * 2 ^ scale_up a b 0"
    by (intro scale_up_ge) simp
  then have "round_nearest_even (a * 2 ^ scale_up a b 0) b div 2 ^ scale_up a b 0 = a div b"
    using assms by (intro round_floor_div) simp_all
  with False assms(1) j show ?thesis
    by (simp add: to_double_def Let_def)
qed

lemma Math_floor_fdiv:
  assumes "0 \<le> n" and "n < 2 ^ 53" and "0 < d"
  shows "Math_floor (fdiv n d) = n div d"
proof -
  have "nat n < 2 ^ 53" using assms by (simp add: nat_less_iff)
  moreover have "0 < nat d" using assms by simp
  ultimately have "fst (to_double (nat n) (nat d)) div snd (to_double (nat n) (nat d)) = nat n div nat d"
    by (intro to_double_floor)
  then have "int (fst (to_double (nat n) (nat d)) div snd (to_double (nat n) (nat d))) =
      int (nat n div nat d)"
    by (rule arg_cong)
  then have "int (fst (to_double (nat n) (nat d))) div int (snd (to_double (nat n) (nat d))) =
      int (nat n) div int (nat d)"
    by (simp only: zdiv_int)
  then have "int (fst (to_double (nat n) (nat d))) div int (snd (to_double (nat n) (nat d))) = n div d"
    using assms by simp
  then show ?thesis
    using assms by (cases "to_double (nat n) (nat d)") (simp add: fdiv_def Math_floor_def)
qed

text \<open>
  \<open>Math.floor(Math.random() * c)\<close> is an index below \<open>c\<close>: the product of a Number below
  \<open>1\<close> and \<open>c\<close> never rounds up to \<open>c\<close>.
\<close>

lemma round_floor_mul:
  fixes M c D K :: nat
  assumes M53: "M < 2 ^ 53" and MD: "M < D" and c: "0 < c" and K: "0 < K"
    and big: "2 ^ 52 * D \<le> M * c * K"
  shows "round_nearest_even (M * c * K) D div K < c"
proof -
  define T where "T = M * c * K"
  define q where "q = T div D"
  define r where "r = T mod D"
  define m where "m = round_nearest_even T D"
  define P where "P = c * K * D"
  have D: "0 < D" using MD by simp
  from MD have "M + 1 \<le> D" by simp
  then have "(M + 1) * (c * K) \<le> D * (c * K)" by (rule mult_le_mono1)
  then have T_hi: "T + c * K \<le> P"
    unfolding T_def P_def by (simp add: algebra_simps)
  have cK: "0 < c * K" using c K by simp
  with T_hi have "T < P" by linarith
  then have q_hi: "q < c * K"
    unfolding q_def P_def using D by (simp add: div_less_iff_less_mult)
  have T_eq: "T = q * D + r"
    unfolding q_def r_def by simp
  have m_cases: "m = q \<or> (m = q + 1 \<and> D \<le> 2 * r)"
    unfolding m_def q_def r_def by (rule round_nearest_even_cases)
  have m_hi: "m < c * K"
  proof (rule ccontr)
    assume "\<not> m < c * K"
    with m_cases q_hi have up: "q + 1 = c * K" and half: "D \<le> 2 * r"
      by auto
    from up have "(q + 1) * D = P" by (simp add: P_def)
    then have "q * D + D = P" by (simp add: algebra_simps)
    with T_eq half have "2 * P \<le> 2 * T + D" by simp
    with T_hi have "2 * (c * K) \<le> D" by simp
    then have "M * (2 * (c * K)) \<le> M * D" by (rule mult_le_mono2)
    then have "2 * T \<le> M * D" unfolding T_def by (simp add: algebra_simps)
    moreover from M53 D have "M * D < 2 ^ 53 * D" by (rule mult_less_mono1)
    moreover have "(2::nat) ^ 53 * D = 2 * (2 ^ 52 * D)" by simp
    ultimately show False using big unfolding T_def by linarith
  qed
  then have "m div K < c"
    using K by (simp add: div_less_iff_less_mult)
  then show ?thesis
    by (simp add: m_def T_def)
qed

lemma to_double_mul_floor:
  assumes "M < 2 ^ 53" and "M < 2 ^ e" and "0 < c" and "c \<le> 2 ^ 53"
  shows "fst (to_double (M * c) (2 ^ e)) div snd (to_double (M * c) (2 ^ e)) < c"
proof (cases "M = 0")
  case True
  with assms(3) show ?thesis by (simp add: to_double_def)
next
  case False
  with assms(3) have pos: "0 < M * c" by simp
  from assms(2) assms(3) have "M * c < 2 ^ e * c" by (rule mult_less_mono1)
  moreover from assms(4) have "(2::nat) ^ e * c \<le> 2 ^ e * 2 ^ 53" by (rule mult_le_mono2)
  ultimately have "M * c < 2 ^ e * 2 ^ 53" by (rule less_le_trans)
  then have "M * c < 2 ^ 53 * 2 ^ e" by (simp only: mult.commute)
  then have j: "scale_down (M * c) (2 ^ e) 0 = 0" by (rule scale_down_0)
  from pos have "2 ^ 52 * 2 ^ e \<le> M * c * 2 ^ scale_up (M * c) (2 ^ e) 0"
    by (rule scale_up_ge)
  then have "round_nearest_even (M * c * 2 ^ scale_up (M * c) (2 ^ e) 0) (2 ^ e)
      div 2 ^ scale_up (M * c) (2 ^ e) 0 < c"
    using assms by (intro round_floor_mul) simp_all
  with pos j show ?thesis
    by (simp add: to_double_def Let_def)
qed

lemma Math_floor_fmul:
  assumes "valid_random u" and "0 < c" and "c \<le> 2 ^ 53"
  shows "0 \<le> Math_floor (fmul u c) \<and> Math_floor (fmul u c) < c"
proof -
  obtain m d where md: "to_double (mantissa u * nat c) (2 ^ exponent u) = (m, d)"
    by (cases "to_double (mantissa u * nat c) (2 ^ exponent u)")
  have "0 < nat c" and "nat c \<le> 2 ^ 53"
    using assms by (simp_all add: nat_le_iff)
  with assms(1) have "fst (to_double (mantissa u * nat c) (2 ^ exponent u))
      div snd (to_double (mantissa u * nat c) (2 ^ exponent u)) < nat c"
    unfolding valid_random_def by (intro to_double_mul_floor) simp_all
  then have "m div d < nat c" by (simp add: md)
  then have "int (m div d) < c" using assms(2) by simp
  then have "int m div int d < c" by (simp only: zdiv_int)
  moreover have "0 \<le> int m div int d"
    by (simp only: zdiv_int [symmetric] of_nat_0_le_iff)
  moreover have "Math_floor (fmul u c) = int m div int d"
    using assms(2) by (simp add: fmul_def Math_floor_def md)
  ultimately show ?thesis by simp
qed

lemma valid_rng_Math_random:
  "valid_rng g \<Longrightarrow> valid_random (fst (Math_random g)) \<and> valid_rng (snd (Math_random g))"
  by (simp add: valid_rng_def Math_random_def)

lemma rand_bounds:
  assumes "valid_rng g" and "lo \<le> hi" and "hi - lo + 1 \<le> 2 ^ 53"
  shows "lo \<le> fst (rand lo hi g) \<and> fst (rand lo hi g) \<le> hi \<and> valid_rng (snd (rand lo hi g))"
proof -
  obtain u g' where ug: "Math_random g = (u, g')"
    by (cases "Math_random g")
  with valid_rng_Math_random [OF assms(1)] have u: "valid_random u" and g': "valid_rng g'"
    by simp_all
  have "0 \<le> Math_floor (fmul u (hi - lo + 1)) \<and> Math_floor (fmul u (hi - lo + 1)) < hi - lo + 1"
    using u assms(2,3) by (intro Math_floor_fmul) simp_all
  then show ?thesis
    using g' by (simp add: rand_def ug)
qed

lemma pick_in_set:
  assumes "valid_rng g" and "arr \<noteq> []" and "int (length arr) \<le> 2 ^ 53"
  shows "(\<exists>x \<in> set arr. fst (pick arr g) = Some x) \<and> valid_rng (snd (pick arr g))"
proof -
  obtain i g' where ig: "rand 0 (int (length arr) - 1) g = (i, g')"
    by (cases "rand 0 (int (length arr) - 1) g")
  have "0 \<le> fst (rand 0 (int (length arr) - 1) g) \<and>
      fst (rand 0 (int (length arr) - 1) g) \<le> int (length arr) - 1 \<and>
      valid_rng (snd (rand 0 (int (length arr) - 1) g))"
    using assms by (intro rand_bounds) (simp_all add: Suc_leI)
  then have i: "0 \<le> i" "i < int (length arr)" and g': "valid_rng g'"
    by (simp_all add: ig)
  then have "nat i < length arr" by simp
  then have "arr ! nat i \<in> set arr" by (rule nth_mem)
  then show ?thesis
    using i g' by (simp add: pick_def ig)
qed

text \<open>
  \<open>(n / d).toFixed(1)\<close> prints tenths that are less than one tenth away from the exact
  quotient, for every \<open>n\<close> below \<open>2^53\<close> and every divisor of the script.
\<close>

lemma round_nearest_even_error:
  assumes "0 < b"
  shows "2 * round_nearest_even T b * b \<le> 2 * T + b \<and> 2 * T \<le> 2 * round_nearest_even T b * b + b"
proof -
  define q where "q = T div b"
  define r where "r = T mod b"
  have T: "T = q * b + r" unfolding q_def r_def by simp
  have r: "r < b" unfolding r_def using assms by simp
  have "round_nearest_even T b = (if 2 * r < b then q else if b < 2 * r then q + 1
      else if even q then q else q + 1)"
    by (simp add: round_nearest_even_def q_def r_def Let_def)
  then consider "round_nearest_even T b = q" "2 * r \<le> b"
    | "round_nearest_even T b = q + 1" "b \<le> 2 * r"
    by (auto split: if_splits)
  then show ?thesis
  proof cases
    case 1
    then show ?thesis using T r by (simp add: algebra_simps)
  next
    case 2
    then show ?thesis using T r by (simp add: algebra_simps)
  qed
qed

lemma nearest_tenths_close:
  fixes n d :: nat
  assumes n: "0 < n" "n < 2 ^ 53" and d: "22 \<le> d"
  shows "\<bar>int (nearest_tenths (fdiv (int n) (int d))) * int d - 10 * int n\<bar> < int d"
proof -
  define K where "K = (2::nat) ^ scale_up n d 0"
  define M where "M = round_nearest_even (n * K) d"
  define m where "m = (20 * M + K) div (2 * K)"
  have dpos: "0 < d" using d by simp
  have K: "0 < K" unfolding K_def by simp
  have "(2::nat) ^ 53 * 1 \<le> 2 ^ 53 * d"
    using dpos by (intro mult_le_mono2) simp
  with n(2) have "n < 2 ^ 53 * d" by simp
  then have j: "scale_down n d 0 = 0" by (rule scale_down_0)
  have td: "to_double n d = (M, K)"
    using n(1) dpos j by (simp add: to_double_def Let_def M_def K_def)
  have big: "2 ^ 52 * d \<le> n * K"
    unfolding K_def using n(1) by (rule scale_up_ge)
  have "n * K < 2 ^ 53 * K" using n(2) K by (rule mult_less_mono1)
  with big have "2 ^ 52 * d < 2 ^ 53 * K" by linarith
  then have "d < 2 * K" by simp
  with d have K10: "10 < K" by linarith
  have err: "2 * M * d \<le> 2 * (n * K) + d \<and> 2 * (n * K) \<le> 2 * M * d + d"
    unfolding M_def using dpos by (rule round_nearest_even_error)
  have m_lo: "2 * K * m \<le> 20 * M + K"
    unfolding m_def by simp
  have "(20 * M + K) mod (2 * K) < 2 * K" using K by simp
  then have m_hi: "20 * M + K < 2 * K * m + 2 * K"
    unfolding m_def by (metis mult.commute div_mult_mod_eq add_less_cancel_left)
  have "fdiv (int n) (int d) = Double (int M) K"
    by (simp add: fdiv_def td)
  moreover have "(20 * int M + int K) div (2 * int K) = int m"
    unfolding m_def by (simp add: zdiv_int)
  ultimately have tenths: "nearest_tenths (fdiv (int n) (int d)) = m"
    by (simp add: nearest_tenths_def)
  define A where "A = int m * int d * int K"
  define B where "B = int M * int d"
  define C where "C = int n * int K"
  have 1: "2 * A \<le> 20 * B + int K * int d"
  proof -
    from m_lo have "(2 * K * m) * d \<le> (20 * M + K) * d" by (rule mult_le_mono1)
    then have "int ((2 * K * m) * d) \<le> int ((20 * M + K) * d)" by (simp only: of_nat_le_iff)
    then show ?thesis by (simp add: A_def B_def algebra_simps)
  qed
  have 2: "20 * B + int K * int d < 2 * A + 2 * int K * int d"
  proof -
    from m_hi dpos have "(20 * M + K) * d < (2 * K * m + 2 * K) * d" by (rule mult_less_mono1)
    then have "int ((20 * M + K) * d) < int ((2 * K * m + 2 * K) * d)" by (simp only: of_nat_less_iff)
    then show ?thesis by (simp add: A_def B_def algebra_simps)
  qed
  have 3: "2 * B \<le> 2 * C + int d" "2 * C \<le> 2 * B + int d"
  proof -
    from err have "int (2 * M * d) \<le> int (2 * (n * K) + d)" "int (2 * (n * K)) \<le> int (2 * M * d + d)"
      by (simp_all only: of_nat_le_iff)
    then show "2 * B \<le> 2 * C + int d" "2 * C \<le> 2 * B + int d"
      by (simp_all add: B_def C_def algebra_simps)
  qed
  have 4: "10 * int d < int K * int d"
  proof -
    from K10 dpos have "10 * d < K * d" by (rule mult_less_mono1)
    then have "int (10 * d) < int (K * d)" by (simp only: of_nat_less_iff)
    then show ?thesis by simp
  qed
  have "\<bar>2 * A - 20 * C\<bar> < 2 * (int K * int d)"
    using 1 2 3 4 by linarith
  moreover have "2 * A - 20 * C = (2 * int K) * (int m * int d - 10 * int n)"
    by (simp add: A_def C_def algebra_simps)
  ultimately have "(2 * int K) * \<bar>int m * int d - 10 * int n\<bar> < (2 * int K) * int d"
    using K by (simp add: abs_mult)
  then have "\<bar>int m * int d - 10 * int n\<bar> < int d"
    using K by (simp add: mult_less_cancel_left_pos)
  then show ?thesis by (simp add: tenths)
qed

lemma decimal_digit: "f < 10 \<Longrightarrow> decimal f = [digit f]"
  by (subst decimal.simps) simp

lemma toFixed1_form:
  "num x < 10 ^ 21 * int (den x) \<Longrightarrow>
   toFixed1 x = decimal (nearest_tenths x div 10) @ ''.'' @ [digit (nearest_tenths x mod 10)]"
  by (simp add: toFixed1_def Let_def decimal_digit)

lemma to_double_den_pos: "0 < snd (to_double a b)"
  by (simp add: to_double_def Let_def)

lemma fdiv_den_pos: "0 < den (fdiv n d)"
  using to_double_den_pos [of "nat \<bar>n\<bar>" "nat \<bar>d\<bar>"]
  by (cases "to_double (nat \<bar>n\<bar>) (nat \<bar>d\<bar>)") (simp add: fdiv_def)

text \<open>A quotient of an integer below \<open>2^53\<close> stays below \<open>1e21\<close>.\<close>

lemma fdiv_below_1e21:
  assumes "0 \<le> n" and "n < 2 ^ 53" and "0 < d"
  shows "num (fdiv n d) < 10 ^ 21 * int (den (fdiv n d))"
proof -
  define D where "D = int (den (fdiv n d))"
  define q where "q = num (fdiv n d) div D"
  have D: "0 < D"
    unfolding D_def using fdiv_den_pos [of n d] by simp
  have "q = n div d"
    unfolding q_def D_def using Math_floor_fdiv [OF assms] by (simp add: Math_floor_def)
  moreover have "n div d \<le> n div 1"
    using assms(1,3) by (intro zdiv_mono2) simp_all
  ultimately have "q \<le> 2 ^ 53 - 1"
    using assms(2) by simp
  with D have "D * q \<le> D * (2 ^ 53 - 1)"
    by (intro mult_left_mono) simp_all
  moreover have "num (fdiv n d) = D * q + num (fdiv n d) mod D"
    unfolding q_def by simp
  moreover have "num (fdiv n d) mod D < D"
    using D by simp
  ultimately have "num (fdiv n d) < D * (2 ^ 53 - 1) + D"
    by linarith
  also have "\<dots> = 2 ^ 53 * D"
    by (simp add: algebra_simps)
  also have "\<dots> \<le> 10 ^ 21 * D"
    using D by (intro mult_right_mono) simp_all
  finally show ?thesis
    by (simp add: D_def)
qed

lemma ToString_nonneg: "0 \<le> n \<Longrightarrow> n < 2 ^ 53 \<Longrightarrow> ToString n = decimal (nat n)"
  by (simp add: ToString_def nat_less_iff)

lemma div_nonneg: "0 \<le> (n::int) \<Longrightarrow> 0 < d \<Longrightarrow> 0 \<le> n div d"
  by (simp add: pos_imp_zdiv_nonneg_iff)

section \<open>Properties of the decimal rendering\<close>

lemma digit_isDigit: "d < 10 \<Longrightarrow> isDigit (digit d)"
proof -
  assume "d < 10"
  then have "d \<in> set [0..<10]" by simp
  moreover have "\<forall>e \<in> set [0..<10]. isDigit (digit e)"
    by (simp add: isDigit_def digit_def upt_rec)
  ultimately show ?thesis by blast
qed

lemma digit_inj: "d < 10 \<Longrightarrow> e < 10 \<Longrightarrow> digit d = digit e \<Longrightarrow> d = e"
proof -
  assume "d < 10" "e < 10" "digit d = digit e"
  moreover have "distinct ''0123456789''" by simp
  moreover have "length ''0123456789'' = 10" by simp
  ultimately show ?thesis
    unfolding digit_def by (metis nth_eq_iff_index_eq)
qed

lemma decimal_nonempty: "decimal n \<noteq> []"
  by (subst decimal.simps) simp

lemma decimal_digits: "list_all isDigit (decimal n)"
proof (induction n rule: decimal.induct)
  case (1 n)
  show ?case
  proof (cases "n < 10")
    case True
    then show ?thesis by (subst decimal.simps) (simp add: digit_isDigit)
  next
    case False
    with "1.IH" show ?thesis by (subst decimal.simps) (simp add: digit_isDigit)
  qed
qed

lemma decimal_inj: "decimal m = decimal n \<Longrightarrow> m = n"
proof (induction m arbitrary: n rule: decimal.induct)
  case (1 m)
  show ?case
  proof (cases "m < 10")
    case m: True
    show ?thesis
    proof (cases "n < 10")
      case True
      with m "1.prems" show ?thesis
        by (simp add: decimal.simps [of m] decimal.simps [of n] digit_inj)
    next
      case False
      with m "1.prems" decimal_nonempty [of "n div 10"] show ?thesis
        by (simp add: decimal.simps [of m] decimal.simps [of n])
    qed
  next
    case m: False
    show ?thesis
    proof (cases "n < 10")
      case True
      with m "1.prems" decimal_nonempty [of "m div 10"] show ?thesis
        by (simp add: decimal.simps [of m] decimal.simps [of n])
    next
      case False
      with m "1.prems" have "decimal (m div 10) = decimal (n div 10)"
        and "digit (m mod 10) = digit (n mod 10)"
        by (simp_all add: decimal.simps [of m] decimal.simps [of n])
      with m "1.IH" have "m div 10 = n div 10" and "m mod 10 = n mod 10"
        by (simp_all add: digit_inj)
      then show ?thesis by (metis div_mult_mod_eq)
    qed
  qed
qed

lemma decimal_two_digits:
  "s < 100 \<Longrightarrow> padStart 2 ''0'' (decimal s) = [digit (s div 10), digit (s mod 10)]"
proof (cases "s < 10")
  case True
  then show ?thesis
    by (simp add: padStart_def decimal.simps [of s] digit_def)
next
  case False
  assume "s < 100"
  with False have "s div 10 < 10" by simp
  with False show ?thesis
    by (simp add: padStart_def decimal.simps [of s] decimal.simps [of "s div 10"])
qed

lemma video_id_index:
  "takeWhile isDigit (drop 4 (''vid-'' @ decimal i @ ''-'' @ t)) = decimal i"
proof -
  have "\<not> isDigit CHR ''-''" by (simp add: isDigit_def)
  moreover have "\<forall>c \<in> set (decimal i). isDigit c"
    using decimal_digits [of i] by (simp add: list_all_iff)
  ultimately show ?thesis by simp
qed

lemma video_id_neq:
  assumes "i \<noteq> j"
  shows "''vid-'' @ decimal i @ ''-'' @ s \<noteq> ''vid-'' @ decimal j @ ''-'' @ t"
proof
  assume "''vid-'' @ decimal i @ ''-'' @ s = ''vid-'' @ decimal j @ ''-'' @ t"
  then have "takeWhile isDigit (drop 4 (''vid-'' @ decimal i @ ''-'' @ s)) =
      takeWhile isDigit (drop 4 (''vid-'' @ decimal j @ ''-'' @ t))"
    by (rule arg_cong)
  then have "decimal i = decimal j"
    by (simp only: video_id_index)
  then have "i = j" by (rule decimal_inj)
  with assms show False by contradiction
qed

section \<open>Properties of the generator\<close>

lemma newVideo_generated:
  assumes "valid_rng g"
  shows "\<exists>v. fst (newVideo i g) = Some v \<and> generated i v \<and> valid_rng (snd (newVideo i g))"
proof -
  obtain c g1 where p1: "pick (drop (Suc 0) CATEGORIES) g = (c, g1)"
    by (cases "pick (drop (Suc 0) CATEGORIES) g")
  have "(\<exists>x \<in> set (drop (Suc 0) CATEGORIES). fst (pick (drop (Suc 0) CATEGORIES) g) = Some x) \<and>
      valid_rng (snd (pick (drop (Suc 0) CATEGORIES) g))"
    using assms by (intro pick_in_set) (simp_all add: CATEGORIES_def)
  then obtain cat where c: "c = Some cat" "cat \<in> set (drop (Suc 0) CATEGORIES)" and g1: "valid_rng g1"
    by (auto simp add: p1)
  obtain t g2 where p2: "pick sampleTitles g1 = (t, g2)"
    by (cases "pick sampleTitles g1")
  have "(\<exists>x \<in> set sampleTitles. fst (pick sampleTitles g1) = Some x) \<and>
      valid_rng (snd (pick sampleTitles g1))"
    using g1 by (intro pick_in_set) (simp_all add: sampleTitles_def)
  then obtain st where t: "t = Some st" and g2: "valid_rng g2"
    by (auto simp add: p2)
  obtain no g3 where p3: "rand 1 999 g2 = (no, g3)"
    by (cases "rand 1 999 g2")
  have "1 \<le> fst (rand 1 999 g2) \<and> fst (rand 1 999 g2) \<le> 999 \<and> valid_rng (snd (rand 1 999 g2))"
    using g2 by (intro rand_bounds) simp_all
  then have g3: "valid_rng g3" by (simp add: p3)
  obtain h g4 where p4: "pick sampleChannels g3 = (h, g4)"
    by (cases "pick sampleChannels g3")
  have "(\<exists>x \<in> set sampleChannels. fst (pick sampleChannels g3) = Some x) \<and>
      valid_rng (snd (pick sampleChannels g3))"
    using g3 by (intro pick_in_set) (simp_all add: sampleChannels_def)
  then obtain ch where h: "h = Some ch" and g4: "valid_rng g4"
    by (auto simp add: p4)
  obtain vw g5 where p5: "rand 500 10000000 g4 = (vw, g5)"
    by (cases "rand 500 10000000 g4")
  have "500 \<le> fst (rand 500 10000000 g4) \<and> fst (rand 500 10000000 g4) \<le> 10000000 \<and>
      valid_rng (snd (rand 500 10000000 g4))"
    using g4 by (intro rand_bounds) simp_all
  then have vw: "500 \<le> vw" "vw \<le> 10000000" and g5: "valid_rng g5" by (simp_all add: p5)
  obtain da g6 where p6: "rand 0 1200 g5 = (da, g6)"
    by (cases "rand 0 1200 g5")
  have "0 \<le> fst (rand 0 1200 g5) \<and> fst (rand 0 1200 g5) \<le> 1200 \<and>
      valid_rng (snd (rand 0 1200 g5))"
    using g5 by (intro rand_bounds) simp_all
  then have da: "0 \<le> da" "da \<le> 1200" and g6: "valid_rng g6" by (simp_all add: p6)
  obtain th g7 where p7: "rand 10 1000 g6 = (th, g7)"
    by (cases "rand 10 1000 g6")
  have "10 \<le> fst (rand 10 1000 g6) \<and> fst (rand 10 1000 g6) \<le> 1000 \<and>
      valid_rng (snd (rand 10 1000 g6))"
    using g6 by (intro rand_bounds) simp_all
  then have g7: "valid_rng g7" by (simp add: p7)
  obtain av g8 where p8: "rand 1 70 g7 = (av, g8)"
    by (cases "rand 1 70 g7")
  have "1 \<le> fst (rand 1 70 g7) \<and> fst (rand 1 70 g7) \<le> 70 \<and> valid_rng (snd (rand 1 70 g7))"
    using g7 by (intro rand_bounds) simp_all
  then have g8: "valid_rng g8" by (simp add: p8)
  obtain dm g9 where p9: "rand 1 20 g8 = (dm, g9)"
    by (cases "rand 1 20 g8")
  have "1 \<le> fst (rand 1 20 g8) \<and> fst (rand 1 20 g8) \<le> 20 \<and> valid_rng (snd (rand 1 20 g8))"
    using g8 by (intro rand_bounds) simp_all
  then have dm: "1 \<le> dm" "dm \<le> 20" and g9: "valid_rng g9" by (simp_all add: p9)
  obtain ds g10 where p10: "rand 0 59 g9 = (ds, g10)"
    by (cases "rand 0 59 g9")
  have "0 \<le> fst (rand 0 59 g9) \<and> fst (rand 0 59 g9) \<le> 59 \<and> valid_rng (snd (rand 0 59 g9))"
    using g9 by (intro rand_bounds) simp_all
  then have ds: "0 \<le> ds" "ds \<le> 59" and g10: "valid_rng g10" by (simp_all add: p10)
  define v where "v =
     \<lparr>video_id = ''vid-'' @ decimal i @ ''-'' @ slugify (st @ '' '' @ ToString no),
      title = st @ '' '' @ ToString no, channel = ch, category = cat, views = vw, daysAgo = da,
      thumbUrl = ''https://picsum.photos/id/'' @ ToString th @ ''/480/270'',
      avatarUrl = ''https://i.pravatar.cc/40?img='' @ ToString av,
      duration = ToString dm @ '':'' @ padStart 2 ''0'' (ToString ds)\<rparr>"
  have new: "newVideo i g = (Some v, g10)"
    by (simp add: newVideo_def p1 p2 p3 p4 p5 p6 p7 p8 p9 p10 c t h v_def Let_def)
  have "nat ds < 100" using ds by simp
  then have "duration v = decimal (nat dm) @ '':'' @ [digit (nat ds div 10), digit (nat ds mod 10)]"
    using dm ds by (simp add: v_def ToString_nonneg decimal_two_digits)
  moreover have "1 \<le> nat dm" "nat dm \<le> 20" "nat ds \<le> 59"
    using dm ds by simp_all
  ultimately have "\<exists>m s. 1 \<le> m \<and> m \<le> 20 \<and> s \<le> 59 \<and>
      duration v = decimal m @ '':'' @ [digit (s div 10), digit (s mod 10)]"
    by blast
  then have "generated i v"
    using c(2) vw da by (simp add: generated_def v_def)
  with new g10 show ?thesis by simp
qed

lemma generateVideos_loop_generated:
  assumes "valid_rng g"
  shows "\<exists>vs. generateVideos_loop i count arr g = Some (arr @ vs) \<and> length vs = count - i \<and>
           (\<forall>k < length vs. generated (i + k) (vs ! k))"
  using assms
proof (induction i count arr g rule: generateVideos_loop.induct)
  case (1 i count arr g)
  show ?case
  proof (cases "i < count")
    case False
    then show ?thesis by (subst generateVideos_loop.simps) simp
  next
    case True
    from newVideo_generated [OF "1.prems"] obtain v where
      v: "fst (newVideo i g) = Some v" and gen: "generated i v"
      and g': "valid_rng (snd (newVideo i g))"
      by blast
    then have new: "newVideo i g = (Some v, snd (newVideo i g))"
      by (cases "newVideo i g") simp
    from "1.IH" [OF True new [symmetric] refl g'] obtain ws where
      ws: "generateVideos_loop (Suc i) count (arr @ [v]) (snd (newVideo i g)) = Some ((arr @ [v]) @ ws)"
      and len: "length ws = count - Suc i"
      and all: "\<forall>k < length ws. generated (Suc i + k) (ws ! k)"
      by blast
    have "generateVideos_loop i count arr g = Some (arr @ (v # ws))"
      using True ws by (subst generateVideos_loop.simps, subst new) simp
    moreover have "length (v # ws) = count - i"
      using True len by simp
    moreover have "\<forall>k < length (v # ws). generated (i + k) ((v # ws) ! k)"
    proof (intro allI impI)
      fix k
      assume "k < length (v # ws)"
      then show "generated (i + k) ((v # ws) ! k)"
        using gen all by (cases k) simp_all
    qed
    ultimately show ?thesis by blast
  qed
qed

lemma generateVideos_generated:
  assumes "valid_rng g"
  shows "\<exists>vs. generateVideos count g = Some vs \<and> length vs = count \<and>
           (\<forall>k < length vs. generated k (vs ! k))"
  using generateVideos_loop_generated [OF assms, of 0 count "[]"]
  by (simp add: generateVideos_def)

section \<open>Evaluation on numerals\<close>

text \<open>
  The recursive equations of the loops, restricted to numerals, so that the simplifier
  can run the functions on concrete inputs.
\<close>

lemma scale_up_numeral:
  "scale_up (numeral a) (numeral b) k =
     (if 2 ^ 52 * numeral b \<le> (numeral a :: nat) * 2 ^ k then k
      else scale_up (numeral a) (numeral b) (Suc k))"
  by (subst scale_up.simps) simp

lemma scale_down_numeral:
  "scale_down (numeral a) (numeral b) j =
     (if (numeral a :: nat) < 2 ^ 53 * numeral b * 2 ^ j then j
      else scale_down (numeral a) (numeral b) (Suc j))"
  by (subst scale_down.simps) simp

lemma decimal_numeral:
  "decimal (numeral k) =
     (if (numeral k :: nat) < 10 then [digit (numeral k)]
      else decimal (numeral k div 10) @ [digit (numeral k mod 10)])"
  by (subst decimal.simps) simp

lemma decimal_0: "decimal 0 = ''0''"
  by (simp add: decimal.simps digit_def)

lemma decimal_1: "decimal (Suc 0) = ''1''"
  by (simp add: decimal.simps digit_def)

lemma generateVideos_loop_0:
  "generateVideos_loop 0 count arr g =
     (if 0 < count then
        (case newVideo 0 g of
           (Some v, g') \<Rightarrow> generateVideos_loop (Suc 0) count (arr @ [v]) g'
         | (None, g') \<Rightarrow> None)
      else Some arr)"
  by (subst generateVideos_loop.simps) simp

lemma generateVideos_loop_done: "count \<le> i \<Longrightarrow> generateVideos_loop i count arr g = Some arr"
  by (subst generateVideos_loop.simps) simp

lemma scale_up_numeral_1:
  "scale_up (numeral a) (Suc 0) k =
     (if 2 ^ 52 \<le> (numeral a :: nat) * 2 ^ k then k else scale_up (numeral a) (Suc 0) (Suc k))"
  by (subst scale_up.simps) simp

lemma scale_down_numeral_1:
  "scale_down (numeral a) (Suc 0) j =
     (if (numeral a :: nat) < 2 ^ 53 * 2 ^ j then j else scale_down (numeral a) (Suc 0) (Suc j))"
  by (subst scale_down.simps) simp

lemma digit_count_numeral:
  "digit_count (numeral n) =
     (if (numeral n :: nat) < 10 then 1 else digit_count (numeral n div 10) + 1)"
  by (subst digit_count.simps) simp

lemma digit_count_0: "digit_count 0 = 1"
  by (subst digit_count.simps) simp

lemma digit_count_1: "digit_count (Suc 0) = 1"
  by (subst digit_count.simps) simp

lemma digit_count_one: "digit_count 1 = 1"
  by (subst digit_count.simps) simp

lemma scale_up_numeral_one:
  "scale_up (numeral a) 1 k =
     (if 2 ^ 52 \<le> (numeral a :: nat) * 2 ^ k then k else scale_up (numeral a) 1 (k + 1))"
  by (subst scale_up.simps) simp

lemma scale_down_numeral_one:
  "scale_down (numeral a) 1 j =
     (if (numeral a :: nat) < 2 ^ 53 * 2 ^ j then j else scale_down (numeral a) 1 (j + 1))"
  by (subst scale_down.simps) simp

lemma decimal_one: "decimal 1 = ''1''"
  by (simp add: decimal.simps digit_def)

lemma shortest_repr_numeral:
  "shortest_repr (numeral X) k =
     (if digit_count (numeral X) < k then None
      else case repr_candidates (numeral X) k of
             [] \<Rightarrow> shortest_repr (numeral X) (k + 1)
           | c # cs \<Rightarrow>
               Some (k, arg_min_list (\<lambda>(n, s). \<bar>int (s * 10 ^ (n - k)) - int (numeral X)\<bar>) (c # cs)))"
  by (subst shortest_repr.simps) (simp cong: list.case_cong)

lemmas number_eval = to_double_def scale_up_numeral scale_down_numeral round_nearest_even_def
  Let_def fdiv_def fmul_def Math_floor_def nearest_tenths_def toFixed1_def ToString_def
  decimal_numeral decimal_0 decimal_1 digit_def

lemmas large_number_eval = number_eval scale_up_numeral_1 scale_down_numeral_1
  scale_up_numeral_one scale_down_numeral_one digit_count_numeral digit_count_0 digit_count_1
  digit_count_one decimal_one shortest_repr_numeral repr_candidates_def ToString_large_def

lemmas generator_eval = number_eval rand_def pick_def Math_random_def newVideo_def
  generateVideos_def generateVideos_loop_0 generateVideos_loop_done CATEGORIES_def
  sampleTitles_def sampleChannels_def padStart_def slugify_def stripHyphens_def string_eval
  isSlugChar_def

section \<open>Properties of the filter pipeline\<close>

lemma filterVideosByQuery_eq_filter:
  "filterVideosByQuery xs Q = filter (text_passes Q) xs"
proof (cases "Q = []")
  case True
  then show ?thesis by (simp add: filterVideosByQuery_def text_passes_def)
next
  case False
  have "includes_str (toLowerCase t) (trim (toLowerCase Q)) = contains_ci t (toLowerCase (trim Q))"
    for t
    by (simp add: includes_str_iff_sublist contains_ci_def trim_toLowerCase toLowerCase_idem)
  with False show ?thesis
    by (simp add: filterVideosByQuery_def text_passes_def [abs_def] Let_def)
qed

lemma category_filter_eq:
  "(if C \<noteq> ''All'' then filter (\<lambda>v. category v = C) L else L) = filter (category_passes C) L"
  by (induction L) (simp_all add: category_passes_def)

lemma filteredList_eq_filter:
  "filteredList s =
     filter (text_passes (searchInput_value s))
       (filter (category_passes (selectedCategory s)) (videos s))"
proof -
  have "(if searchInput_value s \<noteq> [] then searchInput_value s else []) = searchInput_value s"
    by simp
  then show ?thesis
    unfolding filteredList_def Let_def category_filter_eq filterVideosByQuery_eq_filter by simp
qed

section \<open>Properties of the theme functions\<close>

lemma THEMES_light: "THEMES ''light'' = Some \<lparr>icon = [CHR 0xF0, CHR 0x9F, CHR 0x8C, CHR 0x99],
    label = ''Switch to dark theme''\<rparr>"
  by (simp add: THEMES_def)

lemma THEMES_dark: "THEMES ''dark'' = Some \<lparr>icon = [CHR 0xE2, CHR 0x98, CHR 0x80, CHR 0xEF, CHR 0xB8, CHR 0x8F],
    label = ''Switch to light theme''\<rparr>"
  by (simp add: THEMES_def)

lemma applyTheme_Normal:
  "fst (applyTheme theme s) = Normal \<Longrightarrow>
   localStorage (snd (applyTheme theme s)) ''ytcl_theme'' = data_theme (snd (applyTheme theme s))"
  by (simp add: applyTheme_def Let_def split: option.splits)

lemma applyTheme_light_dark:
  "theme = ''light'' \<or> theme = ''dark'' \<Longrightarrow> fst (applyTheme theme s) = Normal \<and>
     data_theme (snd (applyTheme theme s)) = Some theme"
  by (auto simp add: applyTheme_def Let_def THEMES_light THEMES_dark)

lemma toggleTheme_applies:
  "\<exists>theme. (theme = ''light'' \<or> theme = ''dark'') \<and> toggleTheme s = applyTheme theme s"
  unfolding toggleTheme_def Let_def by (rule exI, rule conjI [OF _ refl]) simp

section \<open>The claims\<close>



text \<open>
  Claim C2, as stated for every non-negative integer, fails for a day count beyond
  \<open>2^53\<close>. The integer \<open>12842295812424044 = 365 * (2^45 + 1) - 1\<close> is a Number (it is even
  and lies between \<open>2^53\<close> and \<open>2^54\<close>). Its quotient by 365 is \<open>2^45 + 1 - 1/365\<close>; the
  Numbers between \<open>2^45\<close> and \<open>2^46\<close> are the multiples of \<open>1/128\<close>, so the quotient rounds
  to \<open>2^45 + 1 = 35184372088833\<close>, and that is the count of years \<open>timeAgo\<close> prints,
  while the integer quotient is \<open>35184372088832\<close>.
\<close>

theorem timeAgo_beyond_safe_integers:
  "(365 :: int) \<le> 12842295812424044 \<and>
   to_double 12842295812424044 1 = (12842295812424044, 1) \<and>
   timeAgo 12842295812424044 = ''35184372088833 years ago'' \<and>
   (12842295812424044 :: int) div 365 = 35184372088832"
  by (simp add: timeAgo_def large_number_eval del: One_nat_def)

text \<open>
  Claim C2, amended. For every day count from \<open>0\<close> to the largest safe integer,
  \<open>2^53 - 1\<close>, \<open>timeAgo\<close> returns "Today" below 1, "1 day ago" at 1, "N days ago" with N
  the count between 1 and 30, "N months ago" with N the integer quotient by 30 from 30
  to 364, and "N years ago" with N the integer quotient by 365 from 365 on; and 0, 30,
  364, 365 and 730 give "Today", "1 months ago", "12 months ago", "1 years ago" and
  "2 years ago".
\<close>

theorem timeAgo_buckets:
  assumes "0 \<le> days" and "days < 2 ^ 53"
  shows "(days < 1 \<longrightarrow> timeAgo days = ''Today'') \<and>
         (days = 1 \<longrightarrow> timeAgo days = ''1 day ago'') \<and>
         (1 < days \<and> days < 30 \<longrightarrow> timeAgo days = decimal (nat days) @ '' days ago'') \<and>
         (30 \<le> days \<and> days < 365 \<longrightarrow>
            timeAgo days = decimal (nat (days div 30)) @ '' months ago'') \<and>
         (365 \<le> days \<longrightarrow> timeAgo days = decimal (nat (days div 365)) @ '' years ago'') \<and>
         timeAgo 0 = ''Today'' \<and> timeAgo 30 = ''1 months ago'' \<and>
         timeAgo 364 = ''12 months ago'' \<and> timeAgo 365 = ''1 years ago'' \<and>
         timeAgo 730 = ''2 years ago''"
proof -
  have general: "timeAgo d =
      (if d < 1 then ''Today''
       else if d = 1 then ''1 day ago''
       else if d < 30 then decimal (nat d) @ '' days ago''
       else if d < 365 then decimal (nat (d div 30)) @ '' months ago''
       else decimal (nat (d div 365)) @ '' years ago'')"
    if "0 \<le> d" and "d < 2 ^ 53" for d
  proof -
    have "d div 30 \<le> d div 1" "d div 365 \<le> d div 1"
      using that(1) by (intro zdiv_mono2; simp)+
    with that have "d div 30 < 2 ^ 53" "d div 365 < 2 ^ 53"
      by simp_all
    with that show ?thesis
      by (simp add: timeAgo_def Math_floor_fdiv ToString_nonneg div_nonneg)
  qed
  have "timeAgo 0 = ''Today''"
    by (simp add: general)
  moreover have "timeAgo 1 = ''1 day ago''"
    by (simp add: general)
  moreover have "timeAgo 30 = ''1 months ago''"
    by (simp add: general decimal.simps digit_def)
  moreover have "timeAgo 364 = ''12 months ago''"
    by (simp add: general decimal.simps digit_def)
  moreover have "timeAgo 365 = ''1 years ago''"
    by (simp add: general decimal.simps digit_def)
  moreover have "timeAgo 730 = ''2 years ago''"
    by (simp add: general decimal.simps digit_def)
  ultimately show ?thesis
    using general [OF assms] by simp
qed

theorem timeAgo_buckets_witness:
  "timeAgo 400 = ''1 years ago'' \<and> timeAgo 45 = ''1 months ago'' \<and> timeAgo 29 = ''29 days ago''"
  using timeAgo_buckets [of 400] timeAgo_buckets [of 45] timeAgo_buckets [of 29]
  by (simp add: decimal.simps digit_def)

text \<open>
  Claim C3, as stated for every non-negative integer, fails for a view count whose
  quotient reaches \<open>1e21\<close>, where \<open>toFixed\<close> answers in exponent notation. The Number
  written \<open>1e30\<close> is the integer \<open>1000000000000000019884624838656\<close>; its quotient by \<open>1e9\<close>
  rounds to the Number \<open>1e21\<close>, and \<open>formatViews\<close> returns "1e+21B views", which has no
  decimal place.
\<close>

theorem formatViews_beyond_1e21:
  "(10 :: int) ^ 9 \<le> 1000000000000000019884624838656 \<and>
   to_double 1000000000000000019884624838656 1 = (1000000000000000019884624838656, 1) \<and>
   formatViews 1000000000000000019884624838656 = ''1e+21B views''"
  by (simp add: formatViews_def large_number_eval del: One_nat_def)

text \<open>
  Claim C3, amended. For every view count \<open>n\<close> from \<open>0\<close> to the largest safe integer,
  \<open>2^53 - 1\<close>, \<open>formatViews\<close> returns \<open>(n / 1e9).toFixed(1)\<close> with "B views" from \<open>1e9\<close> on,
  \<open>(n / 1e6).toFixed(1)\<close> with "M views" from \<open>1e6\<close>, \<open>(n / 1e3).toFixed(1)\<close> with
  "K views" from \<open>1e3\<close>, and the integer itself with " views" below; the number printed
  has an integer part, a point and exactly one digit, and is less than one tenth away
  from the quotient; and 1000, 1000000 and 500 give "1.0K views", "1.0M views" and
  "500 views".
\<close>

theorem formatViews_thresholds:
  assumes "0 \<le> n" and "n < 2 ^ 53"
  shows "(10 ^ 9 \<le> n \<longrightarrow> formatViews n = toFixed1 (fdiv n (10 ^ 9)) @ ''B views'') \<and>
         (10 ^ 6 \<le> n \<and> n < 10 ^ 9 \<longrightarrow>
            formatViews n = toFixed1 (fdiv n (10 ^ 6)) @ ''M views'') \<and>
         (10 ^ 3 \<le> n \<and> n < 10 ^ 6 \<longrightarrow>
            formatViews n = toFixed1 (fdiv n (10 ^ 3)) @ ''K views'') \<and>
         (n < 10 ^ 3 \<longrightarrow> formatViews n = decimal (nat n) @ '' views'') \<and>
         (\<forall>d \<in> {10 ^ 3, 10 ^ 6, 10 ^ 9}. d \<le> n \<longrightarrow>
            (\<exists>ip f. f < 10 \<and> toFixed1 (fdiv n d) = decimal ip @ ''.'' @ [digit f] \<and>
               \<bar>(10 * int ip + int f) * d - 10 * n\<bar> < d)) \<and>
         formatViews 1000 = ''1.0K views'' \<and> formatViews 1000000 = ''1.0M views'' \<and>
         formatViews 500 = ''500 views''"
proof (intro conjI impI ballI)
  assume "10 ^ 9 \<le> n"
  then show "formatViews n = toFixed1 (fdiv n (10 ^ 9)) @ ''B views''"
    by (simp add: formatViews_def)
next
  assume "10 ^ 6 \<le> n \<and> n < 10 ^ 9"
  then show "formatViews n = toFixed1 (fdiv n (10 ^ 6)) @ ''M views''"
    by (simp add: formatViews_def)
next
  assume "10 ^ 3 \<le> n \<and> n < 10 ^ 6"
  then show "formatViews n = toFixed1 (fdiv n (10 ^ 3)) @ ''K views''"
    by (simp add: formatViews_def)
next
  assume "n < 10 ^ 3"
  then show "formatViews n = decimal (nat n) @ '' views''"
    using assms(1) by (simp add: formatViews_def ToString_nonneg)
next
  fix d :: int
  assume "d \<in> {10 ^ 3, 10 ^ 6, 10 ^ 9}" and dn: "d \<le> n"
  then have d: "22 \<le> d" by auto
  define m where "m = nearest_tenths (fdiv n d)"
  have "0 < nat n" "nat n < 2 ^ 53" "22 \<le> nat d"
    using d dn assms by (simp_all add: nat_less_iff nat_le_iff)
  then have "\<bar>int (nearest_tenths (fdiv (int (nat n)) (int (nat d)))) * int (nat d)
      - 10 * int (nat n)\<bar> < int (nat d)"
    by (rule nearest_tenths_close)
  then have close: "\<bar>int m * d - 10 * n\<bar> < d"
    using d dn assms by (simp add: m_def)
  have "int (10 * (m div 10) + m mod 10) = int m"
    by (simp only: mult_div_mod_eq)
  then have split: "10 * int (m div 10) + int (m mod 10) = int m"
    by (simp only: of_nat_add of_nat_mult of_nat_numeral)
  have "num (fdiv n d) < 10 ^ 21 * int (den (fdiv n d))"
    using assms d by (intro fdiv_below_1e21) simp_all
  then have "toFixed1 (fdiv n d) = decimal (m div 10) @ ''.'' @ [digit (m mod 10)]"
    unfolding m_def by (rule toFixed1_form)
  then have "m mod 10 < 10 \<and>
      toFixed1 (fdiv n d) = decimal (m div 10) @ ''.'' @ [digit (m mod 10)] \<and>
      \<bar>(10 * int (m div 10) + int (m mod 10)) * d - 10 * n\<bar> < d"
    unfolding split using close by simp
  then show "\<exists>ip f. f < 10 \<and> toFixed1 (fdiv n d) = decimal ip @ ''.'' @ [digit f] \<and>
      \<bar>(10 * int ip + int f) * d - 10 * n\<bar> < d"
    by blast
next
  show "formatViews 1000 = ''1.0K views''"
    by (simp add: formatViews_def number_eval)
  show "formatViews 1000000 = ''1.0M views''"
    by (simp add: formatViews_def number_eval)
  show "formatViews 500 = ''500 views''"
    by (simp add: formatViews_def number_eval)
qed

theorem formatViews_thresholds_witness:
  "formatViews 1500 = ''1.5K views'' \<and> formatViews 1150 = ''1.1K views'' \<and>
   formatViews 2500000 = ''2.5M views'' \<and> formatViews 3000000000 = ''3.0B views'' \<and>
   formatViews 999 = ''999 views''"
proof -
  have "formatViews 1500 = toFixed1 (fdiv 1500 (10 ^ 3)) @ ''K views''"
    using formatViews_thresholds [of 1500] by simp
  moreover have "formatViews 1150 = toFixed1 (fdiv 1150 (10 ^ 3)) @ ''K views''"
    using formatViews_thresholds [of 1150] by simp
  moreover have "formatViews 2500000 = toFixed1 (fdiv 2500000 (10 ^ 6)) @ ''M views''"
    using formatViews_thresholds [of 2500000] by simp
  moreover have "formatViews 3000000000 = toFixed1 (fdiv 3000000000 (10 ^ 9)) @ ''B views''"
    using formatViews_thresholds [of 3000000000] by simp
  moreover have "formatViews 999 = decimal (nat 999) @ '' views''"
    using formatViews_thresholds [of 999] by simp
  ultimately show ?thesis
    by (simp add: number_eval)
qed

text \<open>
  Claim C4. For every count and every sequence of random numbers in \<open>[0, 1)\<close>,
  \<open>generateVideos\<close> returns exactly \<open>count\<close> records, and each has a category of the
  enumeration other than "All", views from 500 to 10,000,000, an age from 0 to 1200
  days, and a duration of minutes from 1 to 20, a colon, and the two digits of seconds
  from 00 to 59.
\<close>

theorem generateVideos_postconditions:
  assumes "valid_rng g"
  shows "\<exists>vs. generateVideos count g = Some vs \<and> length vs = count \<and>
           (\<forall>v \<in> set vs.
              category v \<in> set CATEGORIES \<and> category v \<noteq> ''All'' \<and>
              500 \<le> views v \<and> views v \<le> 10000000 \<and>
              0 \<le> daysAgo v \<and> daysAgo v \<le> 1200 \<and>
              (\<exists>m s. 1 \<le> m \<and> m \<le> 20 \<and> s \<le> 59 \<and>
                 duration v = decimal m @ '':'' @ [digit (s div 10), digit (s mod 10)]))"
proof -
  from generateVideos_generated [OF assms] obtain vs where
    vs: "generateVideos count g = Some vs" and len: "length vs = count"
    and all: "\<forall>k < length vs. generated k (vs ! k)"
    by blast
  have cats: "c \<in> set CATEGORIES \<and> c \<noteq> ''All''" if "c \<in> set (drop 1 CATEGORIES)" for c
    using that by (auto simp add: CATEGORIES_def)
  have "category v \<in> set CATEGORIES \<and> category v \<noteq> ''All'' \<and>
        500 \<le> views v \<and> views v \<le> 10000000 \<and>
        0 \<le> daysAgo v \<and> daysAgo v \<le> 1200 \<and>
        (\<exists>m s. 1 \<le> m \<and> m \<le> 20 \<and> s \<le> 59 \<and>
           duration v = decimal m @ '':'' @ [digit (s div 10), digit (s mod 10)])"
    if "v \<in> set vs" for v
  proof -
    from that obtain k where "k < length vs" and "v = vs ! k"
      by (auto simp add: in_set_conv_nth)
    with all have "generated k v" by simp
    then show ?thesis
      using cats [of "category v"] unfolding generated_def by blast
  qed
  with vs len show ?thesis by blast
qed

theorem generateVideos_postconditions_witness:
  "valid_rng (\<lambda>i. \<lparr>mantissa = 2 ^ 52, exponent = 53\<rparr>) \<and>
   generateVideos 1 (\<lambda>i. \<lparr>mantissa = 2 ^ 52, exponent = 53\<rparr>) = Some
     [\<lparr>video_id = ''vid-0-how-to-build-a-portfolio-500'',
       title = ''How to Build a Portfolio 500'', channel = ''LearnHub'',
       category = ''Education'', views = 5000250, daysAgo = 600,
       thumbUrl = ''https://picsum.photos/id/505/480/270'',
       avatarUrl = ''https://i.pravatar.cc/40?img=36'', duration = ''11:30''\<rparr>] \<and>
   (\<exists>vs. generateVideos 36 (\<lambda>i. \<lparr>mantissa = 2 ^ 52, exponent = 53\<rparr>) = Some vs \<and>
      length vs = 36)"
proof -
  have v: "valid_rng (\<lambda>i. \<lparr>mantissa = 2 ^ 52, exponent = 53\<rparr>)"
    by (simp add: valid_rng_def valid_random_def)
  have "generateVideos 1 (\<lambda>i. \<lparr>mantissa = 2 ^ 52, exponent = 53\<rparr>) = Some
     [\<lparr>video_id = ''vid-0-how-to-build-a-portfolio-500'',
       title = ''How to Build a Portfolio 500'', channel = ''LearnHub'',
       category = ''Education'', views = 5000250, daysAgo = 600,
       thumbUrl = ''https://picsum.photos/id/505/480/270'',
       avatarUrl = ''https://i.pravatar.cc/40?img=36'', duration = ''11:30''\<rparr>]"
    by (simp add: generator_eval cong: Simple_Lowercase_Mapping_in_cong in_ranges_cong)
  with generateVideos_postconditions [OF v, of 36] v show ?thesis
    by blast
qed

text \<open>
  Claim C5. For a theme \<open>t\<close> that is "light" or "dark", toggling after applying \<open>t\<close>
  applies the other theme; every call of \<open>applyTheme\<close> that completes, and every call
  of \<open>toggleTheme\<close>, leaves in the store under "ytcl_theme" the very theme it set on
  the body's attribute; and \<open>toggleTheme\<close> flips the current attribute, read as "light"
  when it is absent or empty.
\<close>

theorem theme_toggle:
  "(t = ''light'' \<or> t = ''dark'' \<longrightarrow>
      toggleTheme (snd (applyTheme t s)) =
        applyTheme (if t = ''light'' then ''dark'' else ''light'') (snd (applyTheme t s)) \<and>
      fst (toggleTheme (snd (applyTheme t s))) = Normal \<and>
      data_theme (snd (toggleTheme (snd (applyTheme t s)))) =
        Some (if t = ''light'' then ''dark'' else ''light'') \<and>
      fst (applyTheme t s) = Normal \<and>
      localStorage (snd (applyTheme t s)) ''ytcl_theme'' = data_theme (snd (applyTheme t s))) \<and>
   (fst (applyTheme theme s) = Normal \<longrightarrow>
      localStorage (snd (applyTheme theme s)) ''ytcl_theme'' =
        data_theme (snd (applyTheme theme s))) \<and>
   fst (toggleTheme s) = Normal \<and>
   localStorage (snd (toggleTheme s)) ''ytcl_theme'' = data_theme (snd (toggleTheme s)) \<and>
   toggleTheme s =
     applyTheme (if (case data_theme s of None \<Rightarrow> ''light''
                     | Some a \<Rightarrow> if a = [] then ''light'' else a) = ''light''
                 then ''dark'' else ''light'') s"
proof (intro conjI impI)
  assume t: "t = ''light'' \<or> t = ''dark''"
  have attr: "data_theme (snd (applyTheme t s)) = Some t"
    using applyTheme_light_dark [OF t] by simp
  from t show tog: "toggleTheme (snd (applyTheme t s)) =
      applyTheme (if t = ''light'' then ''dark'' else ''light'') (snd (applyTheme t s))"
    by (auto simp add: toggleTheme_def attr)
  have other: "(if t = ''light'' then ''dark'' else ''light'') = ''light'' \<or>
      (if t = ''light'' then ''dark'' else ''light'') = ''dark''"
    by simp
  show "fst (toggleTheme (snd (applyTheme t s))) = Normal"
    unfolding tog using applyTheme_light_dark [OF other] by simp
  show "data_theme (snd (toggleTheme (snd (applyTheme t s)))) =
      Some (if t = ''light'' then ''dark'' else ''light'')"
    unfolding tog using applyTheme_light_dark [OF other] by simp
  show "fst (applyTheme t s) = Normal"
    using applyTheme_light_dark [OF t] by simp
  then show "localStorage (snd (applyTheme t s)) ''ytcl_theme'' = data_theme (snd (applyTheme t s))"
    by (rule applyTheme_Normal)
next
  assume "fst (applyTheme theme s) = Normal"
  then show "localStorage (snd (applyTheme theme s)) ''ytcl_theme'' =
      data_theme (snd (applyTheme theme s))"
    by (rule applyTheme_Normal)
next
  obtain theme' where th: "theme' = ''light'' \<or> theme' = ''dark''"
    and eq: "toggleTheme s = applyTheme theme' s"
    using toggleTheme_applies by blast
  show n: "fst (toggleTheme s) = Normal"
    unfolding eq using applyTheme_light_dark [OF th] by simp
  show "localStorage (snd (toggleTheme s)) ''ytcl_theme'' = data_theme (snd (toggleTheme s))"
    using n unfolding eq by (rule applyTheme_Normal)
next
  show "toggleTheme s =
     applyTheme (if (case data_theme s of None \<Rightarrow> ''light''
                     | Some a \<Rightarrow> if a = [] then ''light'' else a) = ''light''
                 then ''dark'' else ''light'') s"
    by (simp add: toggleTheme_def Let_def)
qed

theorem theme_toggle_witness:
  "data_theme (snd (toggleTheme (snd (applyTheme ''light'' samplePage)))) = Some ''dark'' \<and>
   data_theme (snd (toggleTheme (snd (applyTheme ''dark'' samplePage)))) = Some ''light'' \<and>
   localStorage (snd (toggleTheme (snd (applyTheme ''light'' samplePage)))) ''ytcl_theme'' = Some ''dark'' \<and>
   data_theme (snd (toggleTheme samplePage)) = Some ''dark''"
  using theme_toggle [of "''light''" samplePage "''light''"]
    theme_toggle [of "''dark''" samplePage "''dark''"]
    theme_toggle [of "''light''" "snd (applyTheme ''light'' samplePage)" "''light''"]
  by (simp add: samplePage_def toggleTheme_def applyTheme_def THEMES_def Let_def)

text \<open>
  Claim C6. Running the pipeline on its own output, with the same category and the
  same query, gives that output again.
\<close>

theorem filter_idempotent:
  "filteredList (s\<lparr>videos := filteredList s\<rparr>) = filteredList s"
proof -
  have "filter P (filter R (filter P (filter R xs))) = filter P (filter R xs)"
    for P R :: "video \<Rightarrow> bool" and xs
    by (induction xs) simp_all
  then show ?thesis
    by (simp add: filteredList_eq_filter)
qed

theorem filter_idempotent_witness:
  "filteredList (samplePage\<lparr>videos := [sampleVideoA]\<rparr>) = [sampleVideoA] \<and>
   filteredList samplePage = [sampleVideoA]"
  using filter_idempotent [of samplePage]
  by (simp add: filteredList_def filterVideosByQuery_def samplePage_def sampleVideoA_def
      sampleVideoB_def string_eval Let_def
      cong: Simple_Lowercase_Mapping_in_cong in_ranges_cong)

text \<open>
  Claim C7. Applying a theme twice in a row completes as, and leaves the page (the
  attribute, the toggle's icon and label, the store) as, applying it once.
\<close>

theorem applyTheme_idempotent:
  "applyTheme t (snd (applyTheme t s)) = applyTheme t s"
  by (simp add: applyTheme_def Let_def split: option.splits)

theorem applyTheme_idempotent_witness:
  "applyTheme ''dark'' (snd (applyTheme ''dark'' samplePage)) = applyTheme ''dark'' samplePage \<and>
   fst (applyTheme ''dark'' samplePage) = Normal \<and>
   themeToggle_title (snd (applyTheme ''dark'' samplePage)) = ''Switch to light theme''"
  using applyTheme_idempotent [of "''dark''" samplePage]
  by (simp add: applyTheme_def THEMES_def Let_def)

text \<open>
  Claim C8. When the pipeline's list is empty, \<open>renderVideos\<close> leaves exactly the
  "no results" paragraph in the grid and no video card; when it is not empty, the grid
  holds one card per record, in order, and no "no results" paragraph.
\<close>

theorem empty_result_handling:
  "(filteredList s = [] \<longrightarrow>
      videosGrid (renderVideos s) = [emptyMessage] \<and>
      filter isVideoCard (videosGrid (renderVideos s)) = []) \<and>
   (filteredList s \<noteq> [] \<longrightarrow>
      videosGrid (renderVideos s) = map createVideoCard (filteredList s) \<and>
      list_all isVideoCard (videosGrid (renderVideos s)) \<and>
      emptyMessage \<notin> set (videosGrid (renderVideos s)))"
proof -
  have same: "filteredList (s\<lparr>videosGrid := []\<rparr>) = filteredList s"
    by (simp add: filteredList_eq_filter)
  have card: "isVideoCard (createVideoCard v)" for v
    by (simp add: isVideoCard_def createVideoCard_def)
  have msg: "\<not> isVideoCard emptyMessage"
    by (simp add: isVideoCard_def emptyMessage_def)
  have "list_all isVideoCard (map createVideoCard xs)" for xs
    by (simp add: list_all_iff card)
  moreover from this msg have "emptyMessage \<notin> set (map createVideoCard xs)" for xs
    unfolding list_all_iff by blast
  ultimately show ?thesis
    using msg by (simp add: renderVideos_def Let_def same)
qed

theorem empty_result_handling_witness:
  "filteredList (samplePage\<lparr>searchInput_value := ''xyz-no-match''\<rparr>) = [] \<and>
   videosGrid (renderVideos (samplePage\<lparr>searchInput_value := ''xyz-no-match''\<rparr>)) =
     [emptyMessage] \<and>
   filteredList samplePage \<noteq> [] \<and>
   videosGrid (renderVideos samplePage) = [createVideoCard sampleVideoA]"
  using empty_result_handling [of "samplePage\<lparr>searchInput_value := ''xyz-no-match''\<rparr>"]
    empty_result_handling [of samplePage]
  by (simp add: filteredList_def filterVideosByQuery_def samplePage_def sampleVideoA_def
      sampleVideoB_def string_eval Let_def
      cong: Simple_Lowercase_Mapping_in_cong in_ranges_cong)

text \<open>
  Claim C9. A query that is not empty and consists of white space only (each of its code
  points is one that \<open>trim\<close> strips: a WhiteSpace or a LineTerminator of ECMAScript)
  trims to the empty string, and \<open>filterVideosByQuery\<close> returns the whole list for it,
  as it does for the empty query.
\<close>

theorem whitespace_query_passes_through:
  assumes "query \<noteq> []" and "list_all isWhiteSpace (StringToCodePoints query)"
  shows "trim (toLowerCase query) = [] \<and> filterVideosByQuery L query = L \<and>
         filterVideosByQuery L query = filterVideosByQuery L []"
proof -
  from assms(2) have "trim (toLowerCase query) = []"
    by (rule trim_toLowerCase_whitespace)
  then show ?thesis
    using assms(1) by (simp add: filterVideosByQuery_def includes_str_empty)
qed

theorem whitespace_query_passes_through_witness:
  "[CHR 0x20, CHR 0xC2, CHR 0xA0, CHR 0xE3, CHR 0x80, CHR 0x80, CHR 0xEF, CHR 0xBB, CHR 0xBF,
    CHR 0xE2, CHR 0x80, CHR 0xA8, CHR 0x09] \<noteq> [] \<and>
   StringToCodePoints
     [CHR 0x20, CHR 0xC2, CHR 0xA0, CHR 0xE3, CHR 0x80, CHR 0x80, CHR 0xEF, CHR 0xBB, CHR 0xBF,
      CHR 0xE2, CHR 0x80, CHR 0xA8, CHR 0x09] = [0x20, 0xA0, 0x3000, 0xFEFF, 0x2028, 0x09] \<and>
   list_all isWhiteSpace [0x20, 0xA0, 0x3000, 0xFEFF, 0x2028, 0x09] \<and>
   filterVideosByQuery [sampleVideoA, sampleVideoB]
     [CHR 0x20, CHR 0xC2, CHR 0xA0, CHR 0xE3, CHR 0x80, CHR 0x80, CHR 0xEF, CHR 0xBB, CHR 0xBF,
      CHR 0xE2, CHR 0x80, CHR 0xA8, CHR 0x09] = [sampleVideoA, sampleVideoB]"
  using whitespace_query_passes_through
    [of "[CHR 0x20, CHR 0xC2, CHR 0xA0, CHR 0xE3, CHR 0x80, CHR 0x80, CHR 0xEF, CHR 0xBB, CHR 0xBF,
          CHR 0xE2, CHR 0x80, CHR 0xA8, CHR 0x09]" "[sampleVideoA, sampleVideoB]"]
  by (simp add: StringToCodePoints.simps continuation_def payload_def isWhiteSpace_def
      WhiteSpace_def LineTerminator_def Let_def)

text \<open>
  Claim C10. For every count and every sequence of random numbers in \<open>[0, 1)\<close>, the ids
  of the records of \<open>generateVideos\<close> are pairwise distinct: the record at index \<open>k\<close> has
  the id "vid-", \<open>k\<close> in decimal, "-" and the slug of its title, and two such strings with
  different indices differ whatever follows the second hyphen.
\<close>

theorem generated_ids_distinct:
  assumes "valid_rng g"
  shows "(\<exists>vs. generateVideos count g = Some vs \<and> distinct (map video_id vs) \<and>
            (\<forall>k < length vs.
               video_id (vs ! k) = ''vid-'' @ decimal k @ ''-'' @ slugify (title (vs ! k)))) \<and>
         (i \<noteq> j \<longrightarrow> ''vid-'' @ decimal i @ ''-'' @ s \<noteq> ''vid-'' @ decimal j @ ''-'' @ t)"
proof (intro conjI impI)
  from generateVideos_generated [OF assms] obtain vs where
    vs: "generateVideos count g = Some vs"
    and all: "\<forall>k < length vs. generated k (vs ! k)"
    by blast
  have ids: "video_id (vs ! k) = ''vid-'' @ decimal k @ ''-'' @ slugify (title (vs ! k))"
    if "k < length vs" for k
    using all that by (simp add: generated_def)
  have "map video_id vs ! k \<noteq> map video_id vs ! l"
    if "k < length vs" and "l < length vs" and "k \<noteq> l" for k l
    using that video_id_neq [OF that(3)] by (simp add: ids)
  then have "distinct (map video_id vs)"
    by (simp add: distinct_conv_nth)
  with vs ids show "\<exists>vs. generateVideos count g = Some vs \<and> distinct (map video_id vs) \<and>
      (\<forall>k < length vs.
         video_id (vs ! k) = ''vid-'' @ decimal k @ ''-'' @ slugify (title (vs ! k)))"
    by blast
next
  assume "i \<noteq> j"
  then show "''vid-'' @ decimal i @ ''-'' @ s \<noteq> ''vid-'' @ decimal j @ ''-'' @ t"
    by (rule video_id_neq)
qed

theorem generated_ids_distinct_witness:
  "valid_rng (\<lambda>i. \<lparr>mantissa = 0, exponent = 0\<rparr>) \<and>
   (\<exists>vs. generateVideos 2 (\<lambda>i. \<lparr>mantissa = 0, exponent = 0\<rparr>) = Some vs \<and>
      distinct (map video_id vs)) \<and>
   ''vid-1-a'' \<noteq> ''vid-11-a''"
proof -
  have v: "valid_rng (\<lambda>i. \<lparr>mantissa = 0, exponent = 0\<rparr>)"
    by (simp add: valid_rng_def valid_random_def)
  have "''vid-1-a'' \<noteq> ''vid-11-a''" by simp
  with generated_ids_distinct [OF v, of 2 1 11 "''a''" "''a''"] v show ?thesis
    by blast
qed

end
